theory Spec2Isabelle
  imports
    Main
    "HOL-Library.Word"
    "HOL-Library.Char_ord"
    "HOL-Library.List_Lexorder"
begin

unbundle bit_operations_syntax

section \<open>The environment: system clock and random source\<close>

text \<open>
  \<^verbatim>\<open>datetime.now()\<close> returns a naive local time. The \<^verbatim>\<open>datetime\<close> class keeps
  its fields in fixed ranges (\<^verbatim>\<open>MINYEAR = 1\<close>, \<^verbatim>\<open>MAXYEAR = 9999\<close>, month 1..12, day
  1..31, hour below 24, minute and second below 60).
\<close>

record datetime =
  year :: nat
  month :: nat
  day :: nat
  hour :: nat
  minute :: nat
  second :: nat
  microsecond :: nat

text \<open>
  The world holds what the code reads and cannot compute: the successive readings of the
  system clock and the successive 16-byte draws of \<^verbatim>\<open>os.urandom\<close> behind
  \<^verbatim>\<open>uuid.uuid4()\<close>, each with the number of readings taken so far.
\<close>

record world =
  clock :: "nat \<Rightarrow> datetime"
  ticks :: nat
  urandom :: "nat \<Rightarrow> 128 word"
  draws :: nat

definition datetime_now :: "world \<Rightarrow> datetime \<times> world" where
  "datetime_now w = (clock w (ticks w), w\<lparr>ticks := Suc (ticks w)\<rparr>)"

text \<open>
  \<^verbatim>\<open>uuid.uuid4()\<close> is \<^verbatim>\<open>UUID(bytes=os.urandom(16), version=4)\<close>; the constructor
  sets the variant and the version in the 128-bit integer:
  \<^verbatim>\<open>int &= ~(0xc000 << 48); int |= 0x8000 << 48; int &= ~(0xf000 << 64); int |= 4 << 76\<close>.
\<close>

definition uuid4_of_bytes :: "128 word \<Rightarrow> 128 word" where
  "uuid4_of_bytes r =
     (((r AND NOT (push_bit 48 0xc000)) OR push_bit 48 0x8000)
        AND NOT (push_bit 64 0xf000)) OR push_bit 76 4"

definition uuid4 :: "world \<Rightarrow> 128 word \<times> world" where
  "uuid4 w = (uuid4_of_bytes (urandom w (draws w)), w\<lparr>draws := Suc (draws w)\<rparr>)"

section \<open>Formatting\<close>

definition digit_char :: "nat \<Rightarrow> char" where
  "digit_char n = char_of (48 + n)"

text \<open>The decimal numeral of a natural number, as \<^verbatim>\<open>str(n)\<close> prints it.\<close>

fun decimal :: "nat \<Rightarrow> string" where
  "decimal n = (if n < 10 then [digit_char n] else decimal (n div 10) @ [digit_char (n mod 10)])"

declare decimal.simps [simp del]

definition zfill :: "nat \<Rightarrow> string \<Rightarrow> string" where
  "zfill k s = replicate (k - length s) (CHR ''0'') @ s"

text \<open>
  \<^verbatim>\<open>strftime('%Y%m%d_%H%M%S')\<close>: every field is a zero-filled decimal, the year in four
  digits and the others in two. (C libraries differ on \<^verbatim>\<open>%Y\<close> for years below 1000;
  the theorems below are stated for four-digit years, where all of them agree.)
\<close>

definition strftime_Ymd_HMS :: "datetime \<Rightarrow> string" where
  "strftime_Ymd_HMS d =
     zfill 4 (decimal (year d)) @ zfill 2 (decimal (month d)) @ zfill 2 (decimal (day d))
       @ ''_''
       @ zfill 2 (decimal (hour d)) @ zfill 2 (decimal (minute d)) @ zfill 2 (decimal (second d))"

definition hex_char :: "nat \<Rightarrow> char" where
  "hex_char n = ''0123456789abcdef'' ! n"

text \<open>\<^verbatim>\<open>UUID.hex\<close> is \<^verbatim>\<open>'%032x' % self.int\<close>: 32 digits, the most significant first.\<close>

definition uuid_hex :: "128 word \<Rightarrow> string" where
  "uuid_hex u = map (\<lambda>i. hex_char (unat (drop_bit (4 * (31 - i)) u AND 15))) [0..<32]"

section \<open>\<^verbatim>\<open>src/common/state_store.py\<close>\<close>

text \<open>
  \<^verbatim>\<open>return f"run_{datetime.now().strftime('%Y%m%d_%H%M%S')}_{uuid.uuid4().hex[:8]}"\<close>:
  the clock is read first, then the random source.
\<close>

definition run_id_of :: "datetime \<Rightarrow> 128 word \<Rightarrow> string" where
  "run_id_of d u = ''run_'' @ strftime_Ymd_HMS d @ ''_'' @ take 8 (uuid_hex u)"

definition generate_run_id :: "world \<Rightarrow> string \<times> world" where
  "generate_run_id w =
     (let (d, w1) = datetime_now w;
          (u, w2) = uuid4 w1
      in (run_id_of d u, w2))"

text \<open>The dictionary returned by \<^verbatim>\<open>create_run_metadata\<close> has six fixed keys.\<close>

record run_record =
  run_id :: string
  dataset_name :: string
  run_timestamp :: datetime
  status :: string
  records_loaded :: int
  error_message :: "string option"

text \<open>
  The dictionary display evaluates its values in order: \<^verbatim>\<open>generate_run_id()\<close> first,
  then \<^verbatim>\<open>datetime.now()\<close>. The arguments are stored as they are given; the defaults of
  the source are \<^verbatim>\<open>status="started"\<close>, \<^verbatim>\<open>records_loaded=0\<close>, \<^verbatim>\<open>error_message=None\<close>.
\<close>

definition create_run_metadata ::
  "world \<Rightarrow> string \<Rightarrow> string \<Rightarrow> int \<Rightarrow> string option \<Rightarrow> run_record \<times> world" where
  "create_run_metadata w dataset status_arg loaded err =
     (let (rid, w1) = generate_run_id w;
          (ts, w2) = datetime_now w1
      in (\<lparr>run_id = rid, dataset_name = dataset, run_timestamp = ts, status = status_arg,
            records_loaded = loaded, error_message = err\<rparr>, w2))"

text \<open>A call that leaves every optional argument to its default.\<close>

definition create_run_metadata_default :: "world \<Rightarrow> string \<Rightarrow> run_record \<times> world" where
  "create_run_metadata_default w dataset = create_run_metadata w dataset ''started'' 0 None"

text \<open>\<open>n\<close> calls of \<^verbatim>\<open>generate_run_id()\<close> one after the other.\<close>

fun generate_run_ids :: "world \<Rightarrow> nat \<Rightarrow> string list \<times> world" where
  "generate_run_ids w 0 = ([], w)"
| "generate_run_ids w (Suc n) =
     (let (x, w1) = generate_run_id w;
          (xs, w2) = generate_run_ids w1 n
      in (x # xs, w2))"

section \<open>Exceptions\<close>

text \<open>
  An exception value is its class and its text \<^verbatim>\<open>str(e)\<close>. Only instances of
  \<^verbatim>\<open>Exception\<close> are modelled. \<open>KeyError\<close> stands for the class and its subclasses,
  which \<^verbatim>\<open>except KeyError\<close> catches alike.
\<close>

datatype exn_class = KeyError | ValueError | InvalidIndexError | OtherException string

datatype exn = Exn (exn_class: exn_class) (exn_str: string)

section \<open>The part of pandas the extractors use\<close>

text \<open>
  A cell is null (\<^verbatim>\<open>None\<close>, \<^verbatim>\<open>NaN\<close>, \<^verbatim>\<open>NaT\<close>), a value the code never looks into
  (a price, a volume, any object of an info dictionary), a position of a \<^verbatim>\<open>RangeIndex\<close>,
  a string, or a timestamp.
\<close>

datatype 'v cell = Null | Val 'v | Position nat | Text string | Timestamp datetime

fun is_null :: "'v cell \<Rightarrow> bool" where
  "is_null Null = True"
| "is_null _ = False"

text \<open>
  A \<^verbatim>\<open>DataFrame\<close> with string column labels: the name of its index, the labels in order,
  and the rows, each an index label with one cell per column.
\<close>

record 'v frame =
  index_name :: "string option"
  columns :: "string list"
  rows :: "('v cell \<times> 'v cell list) list"

text \<open>\<^verbatim>\<open>pd.DataFrame()\<close>.\<close>

definition empty_frame :: "'v frame" where
  "empty_frame = \<lparr>index_name = None, columns = [], rows = []\<rparr>"

text \<open>The cell of a row under a label: the first column with that label, null when absent.\<close>

definition cell_at :: "string list \<Rightarrow> 'v cell list \<Rightarrow> string \<Rightarrow> 'v cell" where
  "cell_at cols cs l = (case map_of (zip cols cs) l of Some c \<Rightarrow> c | None \<Rightarrow> Null)"

text \<open>
  \<^verbatim>\<open>df[label] = scalar\<close>: every column with that label is overwritten; when there is
  none, a new last column is added.
\<close>

definition setitem :: "'v frame \<Rightarrow> string \<Rightarrow> 'v cell \<Rightarrow> 'v frame" where
  "setitem df label v =
     (if label \<in> set (columns df)
      then df\<lparr>rows := map (\<lambda>(i, cs). (i, map (\<lambda>(l, c). if l = label then v else c)
                                              (zip (columns df) cs))) (rows df)\<rparr>
      else df\<lparr>columns := columns df @ [label],
              rows := map (\<lambda>(i, cs). (i, cs @ [v])) (rows df)\<rparr>)"

text \<open>Rows numbered from 0, as under a fresh \<^verbatim>\<open>RangeIndex\<close>.\<close>

definition renumber :: "'v cell list list \<Rightarrow> ('v cell \<times> 'v cell list) list" where
  "renumber css = map (\<lambda>(k, cs). (Position k, cs)) (enumerate 0 css)"

text \<open>
  \<^verbatim>\<open>df.reset_index()\<close>: the index becomes the first column, under the index's name, or
  under \<^verbatim>\<open>index\<close> (\<^verbatim>\<open>level_0\<close> when \<^verbatim>\<open>index\<close> is taken) when it has none; a
  label that exists already is a \<^verbatim>\<open>ValueError\<close>.
\<close>

definition reset_index :: "'v frame \<Rightarrow> exn + 'v frame" where
  "reset_index df =
     (let name = (case index_name df of
                    Some n \<Rightarrow> n
                  | None \<Rightarrow> if ''index'' \<in> set (columns df) then ''level_0'' else ''index'')
      in if name \<in> set (columns df)
         then Inl (Exn ValueError (''cannot insert '' @ name @ '', already exists''))
         else Inr \<lparr>index_name = None, columns = name # columns df,
                   rows = renumber (map (\<lambda>(i, cs). i # cs) (rows df))\<rparr>)"

text \<open>The labels of a list in the order of their first occurrence.\<close>

definition first_occurrences :: "string list \<Rightarrow> string list" where
  "first_occurrences ls = rev (remdups (rev ls))"

text \<open>
  \<^verbatim>\<open>pd.concat(dfs, ignore_index=True)\<close>: the rows of all frames under a new
  \<^verbatim>\<open>RangeIndex\<close>. Frames with the same columns are stacked as they are; otherwise the
  columns are the union in order of first occurrence, every row is re-indexed to them with
  null for a column its frame lacks, and a frame with a repeated label cannot be re-indexed.
\<close>

definition pd_concat :: "'v frame list \<Rightarrow> exn + 'v frame" where
  "pd_concat dfs =
     (if dfs = [] then Inl (Exn ValueError ''No objects to concatenate'')
      else if \<forall>df\<in>set dfs. columns df = columns (hd dfs)
      then Inr \<lparr>index_name = None, columns = columns (hd dfs),
                rows = renumber (concat (map (\<lambda>df. map snd (rows df)) dfs))\<rparr>
      else if \<exists>df\<in>set dfs. \<not> distinct (columns df)
      then Inl (Exn InvalidIndexError
                  ''Reindexing only valid with uniquely valued Index objects'')
      else (let cols = first_occurrences (concat (map columns dfs))
            in Inr \<lparr>index_name = None, columns = cols,
                     rows = renumber (concat (map (\<lambda>df. map (\<lambda>(i, cs).
                              map (cell_at (columns df) cs) cols) (rows df)) dfs))\<rparr>))"

text \<open>\<^verbatim>\<open>str.lower()\<close> on ASCII labels.\<close>

definition lower_char :: "char \<Rightarrow> char" where
  "lower_char c =
     (if CHR ''A'' \<le> c \<and> c \<le> CHR ''Z'' then char_of (of_char c + (32 :: nat)) else c)"

definition str_lower :: "string \<Rightarrow> string" where
  "str_lower s = map lower_char s"

text \<open>\<^verbatim>\<open>df.columns = df.columns.str.lower()\<close>.\<close>

definition lower_columns :: "'v frame \<Rightarrow> 'v frame" where
  "lower_columns df = df\<lparr>columns := map str_lower (columns df)\<rparr>"

text \<open>\<^verbatim>\<open>df.rename(columns=mapping)\<close>: labels outside the mapping stay.\<close>

definition rename_columns :: "(string \<times> string) list \<Rightarrow> 'v frame \<Rightarrow> 'v frame" where
  "rename_columns m df =
     df\<lparr>columns := map (\<lambda>l. case map_of m l of Some l' \<Rightarrow> l' | None \<Rightarrow> l) (columns df)\<rparr>"

text \<open>
  \<^verbatim>\<open>df[labels]\<close> with a list: a \<^verbatim>\<open>KeyError\<close> when a label is missing, otherwise, for
  each label in turn, all the columns that carry it.
\<close>

definition getitem_columns :: "'v frame \<Rightarrow> string list \<Rightarrow> exn + 'v frame" where
  "getitem_columns df labels =
     (if \<exists>l\<in>set labels. l \<notin> set (columns df)
      then Inl (Exn KeyError ''not in index'')
      else Inr (df\<lparr>columns := concat (map (\<lambda>l. filter (\<lambda>c. c = l) (columns df)) labels),
                   rows := map (\<lambda>(i, cs). (i, concat (map (\<lambda>l. map snd
                              (filter (\<lambda>(c, v). c = l) (zip (columns df) cs))) labels)))
                            (rows df)\<rparr>))"

text \<open>
  \<^verbatim>\<open>df.dropna(subset=labels)\<close>: a \<^verbatim>\<open>KeyError\<close> when a label is missing, otherwise the
  rows with no null cell in any column that carries one of the labels; the kept rows keep
  their index labels.
\<close>

definition dropna :: "string list \<Rightarrow> 'v frame \<Rightarrow> exn + 'v frame" where
  "dropna labels df =
     (if \<exists>l\<in>set labels. l \<notin> set (columns df)
      then Inl (Exn KeyError (concat labels))
      else Inr (df\<lparr>rows := filter (\<lambda>(i, cs). \<forall>(l, c)\<in>set (zip (columns df) cs).
                                        l \<in> set labels \<longrightarrow> \<not> is_null c) (rows df)\<rparr>))"

text \<open>
  \<^verbatim>\<open>pd.DataFrame(records)\<close> for a list of dictionaries: the columns are the keys in
  order of first occurrence, a record has null under a key it lacks.
\<close>

type_synonym 'v pydict = "(string \<times> 'v cell) list"

definition dict_get :: "'v pydict \<Rightarrow> string \<Rightarrow> 'v cell \<Rightarrow> 'v cell" where
  "dict_get d k dflt = (case map_of d k of Some v \<Rightarrow> v | None \<Rightarrow> dflt)"

definition DataFrame_of_records :: "'v pydict list \<Rightarrow> 'v frame" where
  "DataFrame_of_records rs =
     (let cols = first_occurrences (concat (map (map fst) rs))
      in \<lparr>index_name = None, columns = cols,
          rows = renumber (map (\<lambda>r. map (\<lambda>l. dict_get r l Null) cols) rs)\<rparr>)"

section \<open>The part of yfinance the extractors use\<close>

text \<open>
  The request \<^verbatim>\<open>yf.download\<close> receives: the tickers with either \<^verbatim>\<open>start\<close> and
  \<^verbatim>\<open>end\<close> or \<^verbatim>\<open>period\<close> (the other keyword arguments are the same in both calls).
  What it returns is seen by the code in two ways only: as the table itself
  (\<^verbatim>\<open>data.copy()\<close>) and through \<^verbatim>\<open>data[ticker]\<close>, which raises or yields the
  table of one ticker. The download and \<^verbatim>\<open>yf.Ticker(symbol).info\<close> are parameters of the
  extractors; the latter may answer differently at each call, so it takes the number of the
  call as well.
\<close>

datatype request =
    By_range "string list" string string
  | By_period "string list" string

record 'v yf_data =
  whole :: "'v frame"
  getitem_ticker :: "string \<Rightarrow> exn + 'v frame"

section \<open>\<^verbatim>\<open>src/extract/yahoo_prices.py\<close>\<close>

text \<open>
  \<^verbatim>\<open>if start_date and end_date:\<close> tests truth values: \<^verbatim>\<open>None\<close> and the empty string
  are false.
\<close>

definition download_request ::
  "string list \<Rightarrow> string option \<Rightarrow> string option \<Rightarrow> string \<Rightarrow> request" where
  "download_request tickers start_date end_date period =
     (case (start_date, end_date) of
        (Some s, Some e) \<Rightarrow>
          if s \<noteq> [] \<and> e \<noteq> [] then By_range tickers s e else By_period tickers period
      | _ \<Rightarrow> By_period tickers period)"

text \<open>
  The loop over several tickers. Its \<^verbatim>\<open>try\<close> covers the lookup, the new column, the
  \<^verbatim>\<open>reset_index\<close> and the \<^verbatim>\<open>append\<close>; only a \<^verbatim>\<open>KeyError\<close> is caught there, and the
  ticker is then skipped.
\<close>

fun collect_tickers :: "'v yf_data \<Rightarrow> string list \<Rightarrow> exn + 'v frame list" where
  "collect_tickers data [] = Inr []"
| "collect_tickers data (t # ts) =
     (case getitem_ticker data t of
        Inl e \<Rightarrow> if exn_class e = KeyError then collect_tickers data ts else Inl e
      | Inr ticker_data \<Rightarrow>
          (case reset_index (setitem ticker_data ''symbol'' (Text t)) of
             Inl e \<Rightarrow> if exn_class e = KeyError then collect_tickers data ts else Inl e
           | Inr ticker_data' \<Rightarrow>
               (case collect_tickers data ts of
                  Inl e \<Rightarrow> Inl e
                | Inr dfs \<Rightarrow> Inr (ticker_data' # dfs))))"

definition column_mapping :: "(string \<times> string) list" where
  "column_mapping =
     [(''date'', ''date''), (''open'', ''open''), (''high'', ''high''), (''low'', ''low''),
      (''close'', ''close''), (''adj close'', ''adj_close''), (''volume'', ''volume''),
      (''symbol'', ''symbol'')]"

definition final_columns :: "string list" where
  "final_columns =
     [''symbol'', ''date'', ''open'', ''high'', ''low'', ''close'', ''adj_close'', ''volume'']"

text \<open>
  The common tail of the function, from \<^verbatim>\<open>df.columns = df.columns.str.lower()\<close> to
  \<^verbatim>\<open>return df\<close>: lower-case labels, rename, select, stamp, drop the rows without a close
  or a volume. The clock is read once, after the selection.
\<close>

definition normalize_prices :: "world \<Rightarrow> 'v frame \<Rightarrow> (exn + 'v frame) \<times> world" where
  "normalize_prices w df =
     (case getitem_columns (rename_columns column_mapping (lower_columns df)) final_columns of
        Inl e \<Rightarrow> (Inl e, w)
      | Inr selected \<Rightarrow>
          (let (now, w1) = datetime_now w
           in (dropna [''close'', ''volume''] (setitem selected ''ingested_at'' (Timestamp now)),
               w1)))"

text \<open>
  The whole function. Every exception leaves through \<^verbatim>\<open>except Exception ... raise\<close>
  unchanged; logging is left out.
\<close>

definition extract_yahoo_prices ::
  "(request \<Rightarrow> exn + 'v yf_data) \<Rightarrow> world \<Rightarrow> string list \<Rightarrow> string option \<Rightarrow> string option
     \<Rightarrow> string \<Rightarrow> (exn + 'v frame) \<times> world" where
  "extract_yahoo_prices yf_download w tickers start_date end_date period =
     (case yf_download (download_request tickers start_date end_date period) of
        Inl e \<Rightarrow> (Inl e, w)
      | Inr data \<Rightarrow>
          if length tickers = 1
          then (case reset_index (setitem (whole data) ''symbol'' (Text (tickers ! 0))) of
                  Inl e \<Rightarrow> (Inl e, w)
                | Inr df \<Rightarrow> normalize_prices w df)
          else (case collect_tickers data tickers of
                  Inl e \<Rightarrow> (Inl e, w)
                | Inr dfs \<Rightarrow>
                    if dfs = [] then (Inr empty_frame, w)
                    else (case pd_concat dfs of
                            Inl e \<Rightarrow> (Inl e, w)
                          | Inr df \<Rightarrow> normalize_prices w df)))"

section \<open>\<^verbatim>\<open>src/extract/yahoo_company_info.py\<close>\<close>

text \<open>The record of a symbol whose info was fetched: 24 keys, in this order.\<close>

definition company_record :: "string \<Rightarrow> 'v pydict \<Rightarrow> datetime \<Rightarrow> 'v pydict" where
  "company_record ticker_symbol info now =
     [(''symbol'', Text ticker_symbol),
      (''company_name'',
         dict_get info ''longName'' (dict_get info ''shortName'' (Text ticker_symbol))),
      (''sector'', dict_get info ''sector'' Null),
      (''industry'', dict_get info ''industry'' Null),
      (''market_cap'', dict_get info ''marketCap'' Null),
      (''enterprise_value'', dict_get info ''enterpriseValue'' Null),
      (''pe_ratio'', dict_get info ''trailingPE'' Null),
      (''forward_pe'', dict_get info ''forwardPE'' Null),
      (''peg_ratio'', dict_get info ''pegRatio'' Null),
      (''price_to_book'', dict_get info ''priceToBook'' Null),
      (''dividend_yield'', dict_get info ''dividendYield'' Null),
      (''beta'', dict_get info ''beta'' Null),
      (''fifty_two_week_high'', dict_get info ''fiftyTwoWeekHigh'' Null),
      (''fifty_two_week_low'', dict_get info ''fiftyTwoWeekLow'' Null),
      (''fifty_day_average'', dict_get info ''fiftyDayAverage'' Null),
      (''two_hundred_day_average'', dict_get info ''twoHundredDayAverage'' Null),
      (''shares_outstanding'', dict_get info ''sharesOutstanding'' Null),
      (''float_shares'', dict_get info ''floatShares'' Null),
      (''employees'', dict_get info ''fullTimeEmployees'' Null),
      (''country'', dict_get info ''country'' Null),
      (''city'', dict_get info ''city'' Null),
      (''website'', dict_get info ''website'' Null),
      (''business_summary'', dict_get info ''longBusinessSummary'' Null),
      (''ingested_at'', Timestamp now)]"

text \<open>The minimal record of the \<^verbatim>\<open>except Exception as e\<close> branch.\<close>

definition error_record :: "string \<Rightarrow> datetime \<Rightarrow> exn \<Rightarrow> 'v pydict" where
  "error_record ticker_symbol now e =
     [(''symbol'', Text ticker_symbol), (''ingested_at'', Timestamp now),
      (''error'', Text (exn_str e))]"

text \<open>
  The loop, from the \<open>k\<close>-th call of \<^verbatim>\<open>yf.Ticker(symbol).info\<close> on. Either branch reads
  the clock once, after the fetch.
\<close>

fun company_records ::
  "(nat \<Rightarrow> string \<Rightarrow> exn + 'v pydict) \<Rightarrow> world \<Rightarrow> nat \<Rightarrow> string list
     \<Rightarrow> 'v pydict list \<times> world" where
  "company_records ticker_info w k [] = ([], w)"
| "company_records ticker_info w k (ticker_symbol # rest) =
     (let (record, w1) =
            (case ticker_info k ticker_symbol of
               Inr info \<Rightarrow>
                 (let (now, w') = datetime_now w in (company_record ticker_symbol info now, w'))
             | Inl e \<Rightarrow>
                 (let (now, w') = datetime_now w in (error_record ticker_symbol now e, w')));
          (records, w2) = company_records ticker_info w1 (Suc k) rest
      in (record # records, w2))"

definition extract_yahoo_company_info ::
  "(nat \<Rightarrow> string \<Rightarrow> exn + 'v pydict) \<Rightarrow> world \<Rightarrow> string list \<Rightarrow> 'v frame \<times> world" where
  "extract_yahoo_company_info ticker_info w tickers =
     (let (records, w') = company_records ticker_info w 0 tickers
      in (DataFrame_of_records records, w'))"

section \<open>Vocabulary of the properties\<close>

subsection \<open>Run identifiers\<close>

text \<open>
  A clock reading within the ranges of \<^verbatim>\<open>datetime\<close>, with a four-digit year; the fields
  of a reading down to the second, compared lexicographically, order readings by time.
\<close>

definition datetime_ok :: "datetime \<Rightarrow> bool" where
  "datetime_ok d \<longleftrightarrow>
     1000 \<le> year d \<and> year d \<le> 9999 \<and> 1 \<le> month d \<and> month d \<le> 12 \<and>
     1 \<le> day d \<and> day d \<le> 31 \<and> hour d < 24 \<and> minute d < 60 \<and> second d < 60"

definition stamp_fields :: "datetime \<Rightarrow> nat list" where
  "stamp_fields d = [year d, month d, day d, hour d, minute d, second d]"

text \<open>The shapes \<^verbatim>\<open>YYYYMMDD_HHMMSS\<close> and eight lower-case hexadecimal digits.\<close>

definition is_digit :: "char \<Rightarrow> bool" where
  "is_digit c \<longleftrightarrow> c \<in> set ''0123456789''"

definition is_hex :: "char \<Rightarrow> bool" where
  "is_hex c \<longleftrightarrow> c \<in> set ''0123456789abcdef''"

definition is_stamp :: "string \<Rightarrow> bool" where
  "is_stamp s \<longleftrightarrow>
     length s = 15 \<and> list_all is_digit (take 8 s) \<and> s ! 8 = CHR ''_'' \<and> list_all is_digit (drop 9 s)"

definition is_hex8 :: "string \<Rightarrow> bool" where
  "is_hex8 s \<longleftrightarrow> length s = 8 \<and> list_all is_hex s"

subsection \<open>Company information\<close>

text \<open>The record the loop appends for a symbol, by the outcome of its fetch.\<close>

definition record_of_outcome :: "string \<Rightarrow> datetime \<Rightarrow> exn + 'v pydict \<Rightarrow> 'v pydict" where
  "record_of_outcome name now r =
     (case r of Inr info \<Rightarrow> company_record name info now | Inl e \<Rightarrow> error_record name now e)"

subsection \<open>Prices\<close>

text \<open>
  The table of one ticker as yfinance delivers it with \<^verbatim>\<open>auto_adjust=False\<close>: the index
  is named \<^verbatim>\<open>Date\<close>, the columns are the six price labels in some order, and every row has
  one cell per column.
\<close>

definition price_labels :: "string list" where
  "price_labels = [''Open'', ''High'', ''Low'', ''Close'', ''Adj Close'', ''Volume'']"

definition price_frame :: "'v frame \<Rightarrow> bool" where
  "price_frame f \<longleftrightarrow>
     index_name f = Some ''Date'' \<and> distinct (columns f) \<and> set (columns f) = set price_labels
     \<and> (\<forall>(i, cs)\<in>set (rows f). length cs = length (columns f))"

text \<open>
  What the code looks at for a ticker: with a single ticker the downloaded table itself,
  otherwise \<^verbatim>\<open>data[ticker]\<close>. The fetch of a symbol failed when that lookup raises
  \<^verbatim>\<open>KeyError\<close>; it succeeded when it yields a price table.
\<close>

definition ticker_view :: "'v yf_data \<Rightarrow> string list \<Rightarrow> string \<Rightarrow> exn + 'v frame" where
  "ticker_view data tickers t =
     (if length tickers = 1 then Inr (whole data) else getitem_ticker data t)"

definition fetch_failed :: "exn + 'v frame \<Rightarrow> bool" where
  "fetch_failed r = (case r of Inl e \<Rightarrow> exn_class e = KeyError | Inr f \<Rightarrow> False)"

definition fetch_succeeded :: "exn + 'v frame \<Rightarrow> bool" where
  "fetch_succeeded r = (case r of Inl e \<Rightarrow> False | Inr f \<Rightarrow> price_frame f)"

text \<open>
  The rows a ticker contributes, under the nine output columns: none after a failure,
  otherwise one for each row of its table. The expected result stacks them in input order,
  numbers them, and keeps those with a close and a volume.
\<close>

definition price_rows_of :: "string \<Rightarrow> datetime \<Rightarrow> exn + 'v frame \<Rightarrow> 'v cell list list" where
  "price_rows_of t now r =
     (case r of
        Inl e \<Rightarrow> []
      | Inr f \<Rightarrow>
          map (\<lambda>(i, cs).
                 [Text t, i, cell_at (columns f) cs ''Open'', cell_at (columns f) cs ''High'',
                  cell_at (columns f) cs ''Low'', cell_at (columns f) cs ''Close'',
                  cell_at (columns f) cs ''Adj Close'', cell_at (columns f) cs ''Volume'',
                  Timestamp now])
              (rows f))"

definition price_columns :: "string list" where
  "price_columns = final_columns @ [''ingested_at'']"

definition has_close_and_volume :: "'v cell \<times> 'v cell list \<Rightarrow> bool" where
  "has_close_and_volume r \<longleftrightarrow>
     \<not> is_null (cell_at price_columns (snd r) ''close'')
     \<and> \<not> is_null (cell_at price_columns (snd r) ''volume'')"

definition expected_prices :: "datetime \<Rightarrow> (string \<times> (exn + 'v frame)) list \<Rightarrow> 'v frame" where
  "expected_prices now views =
     \<lparr>index_name = None, columns = price_columns,
      rows = filter has_close_and_volume
               (renumber (concat (map (\<lambda>(t, r). price_rows_of t now r) views)))\<rparr>"

text \<open>
  What \<^verbatim>\<open>extract_yahoo_prices\<close> does with the downloaded data, from
  \<^verbatim>\<open>if len(tickers) == 1:\<close> to \<^verbatim>\<open>return df\<close>: the body of the function below the download.
\<close>

definition prices_from_data ::
  "world \<Rightarrow> string list \<Rightarrow> 'v yf_data \<Rightarrow> (exn + 'v frame) \<times> world" where
  "prices_from_data w tickers data =
     (if length tickers = 1
      then (case reset_index (setitem (whole data) ''symbol'' (Text (tickers ! 0))) of
              Inl e \<Rightarrow> (Inl e, w)
            | Inr df \<Rightarrow> normalize_prices w df)
      else (case collect_tickers data tickers of
              Inl e \<Rightarrow> (Inl e, w)
            | Inr dfs \<Rightarrow>
                if dfs = [] then (Inr empty_frame, w)
                else (case pd_concat dfs of
                        Inl e \<Rightarrow> (Inl e, w)
                      | Inr df \<Rightarrow> normalize_prices w df)))"

text \<open>No row has a null cell in a column labelled \<^verbatim>\<open>close\<close> or \<^verbatim>\<open>volume\<close>.\<close>

definition no_null_close_volume :: "'v frame \<Rightarrow> bool" where
  "no_null_close_volume df \<longleftrightarrow>
     (\<forall>(i, cs)\<in>set (rows df). \<forall>(l, c)\<in>set (zip (columns df) cs).
        l \<in> {''close'', ''volume''} \<longrightarrow> \<not> is_null c)"

subsection \<open>Auxiliary notions of the proofs\<close>

text \<open>
  A row seen as a function from labels to cells, and a table given by its labels and such
  functions; the table of a ticker after \<^verbatim>\<open>ticker_data['symbol'] = ticker\<close> and
  \<^verbatim>\<open>reset_index()\<close> has this form. \<open>relabel\<close> is what lower-casing and renaming do to
  one label.
\<close>

definition source_row :: "string \<Rightarrow> string list \<Rightarrow> 'v cell \<times> 'v cell list \<Rightarrow> string \<Rightarrow> 'v cell" where
  "source_row t cols r l =
     (if l = ''Date'' then fst r else if l = ''symbol'' then Text t else cell_at cols (snd r) l)"

definition prepared :: "string \<Rightarrow> 'v frame \<Rightarrow> string list \<times> (string \<Rightarrow> 'v cell) list" where
  "prepared t f = (''Date'' # columns f @ [''symbol''], map (source_row t (columns f)) (rows f))"

definition prepared_of :: "string \<Rightarrow> exn + 'v frame \<Rightarrow> (string list \<times> (string \<Rightarrow> 'v cell) list) list" where
  "prepared_of t r = (case r of Inl e \<Rightarrow> [] | Inr f \<Rightarrow> [prepared t f])"

definition tab :: "string list \<Rightarrow> (string \<Rightarrow> 'v cell) list \<Rightarrow> 'v frame" where
  "tab C gs = \<lparr>index_name = None, columns = C, rows = renumber (map (\<lambda>g. map g C) gs)\<rparr>"

definition relabel :: "string \<Rightarrow> string" where
  "relabel l = (case map_of column_mapping (str_lower l) of Some l' \<Rightarrow> l' | None \<Rightarrow> str_lower l)"

definition source_labels :: "string list" where
  "source_labels =
     [''symbol'', ''Date'', ''Open'', ''High'', ''Low'', ''Close'', ''Adj Close'', ''Volume'']"

subsection \<open>Sample inputs\<close>

text \<open>
  Two clocks, one that stands still and one that advances a second at each reading, and a
  random source whose draws differ in their low bits only.
\<close>

definition frozen_clock :: "nat \<Rightarrow> datetime" where
  "frozen_clock n = \<lparr>year = 2024, month = 1, day = 15, hour = 10, minute = 30, second = 0,
     microsecond = 0\<rparr>"

definition counting_urandom :: "nat \<Rightarrow> 128 word" where
  "counting_urandom n = of_nat n"

definition ticking_clock :: "nat \<Rightarrow> datetime" where
  "ticking_clock n = \<lparr>year = 2024, month = 1, day = 15, hour = 10, minute = 30, second = n mod 60,
     microsecond = 0\<rparr>"

definition ticking_world :: world where
  "ticking_world = \<lparr>clock = ticking_clock, ticks = 0, urandom = counting_urandom, draws = 0\<rparr>"

definition same_second_world :: world where
  "same_second_world = \<lparr>clock = frozen_clock, ticks = 0, urandom = counting_urandom, draws = 0\<rparr>"

text \<open>
  An info service that fails for \<^verbatim>\<open>BBB\<close>; a download that knows the ticker \<^verbatim>\<open>AAA\<close>
  only, with one row lacking its close; a download that raises; a download that answers one
  date range for two tickers and raises at every other request; and the table expected for
  \<^verbatim>\<open>AAA\<close>.
\<close>

definition sample_ticker_info :: "nat \<Rightarrow> string \<Rightarrow> exn + int pydict" where
  "sample_ticker_info k s =
     (if s = ''BBB'' then Inl (Exn (OtherException ''HTTPError'') ''404 Not Found'')
      else Inr [(''longName'', Text ''Alpha Corp''), (''sector'', Text ''Technology''),
                (''marketCap'', Val 1000)])"

definition jan :: "nat \<Rightarrow> datetime" where
  "jan d = \<lparr>year = 2024, month = 1, day = d, hour = 0, minute = 0, second = 0, microsecond = 0\<rparr>"

definition sample_aaa :: "int frame" where
  "sample_aaa =
     \<lparr>index_name = Some ''Date'',
      columns = [''Open'', ''High'', ''Low'', ''Close'', ''Adj Close'', ''Volume''],
      rows = [(Timestamp (jan 2), [Val 10, Val 12, Val 9, Val 11, Val 11, Val 1000]),
              (Timestamp (jan 3), [Val 11, Val 13, Val 10, Null, Null, Val 900])]\<rparr>"

definition sample_getitem :: "string \<Rightarrow> exn + int frame" where
  "sample_getitem t = (if t = ''AAA'' then Inr sample_aaa else Inl (Exn KeyError t))"

definition sample_data :: "int yf_data" where
  "sample_data = \<lparr>whole = sample_aaa, getitem_ticker = sample_getitem\<rparr>"

definition sample_download :: "request \<Rightarrow> exn + int yf_data" where
  "sample_download req = Inr sample_data"

definition failing_download :: "request \<Rightarrow> exn + int yf_data" where
  "failing_download req = Inl (Exn ValueError ''No objects to concatenate'')"

definition range_download :: "request \<Rightarrow> exn + int yf_data" where
  "range_download req =
     (case req of
        By_range ts a b \<Rightarrow>
          if ts = [''AAA'', ''BBB''] \<and> a = ''2024-01-01'' \<and> b = ''2024-01-31''
          then Inr sample_data
          else Inl (Exn ValueError ''another range requested'')
      | By_period ts p \<Rightarrow> Inl (Exn ValueError ''a period requested''))"

definition sample_prices_result :: "int frame" where
  "sample_prices_result =
     \<lparr>index_name = None,
      columns = [''symbol'', ''date'', ''open'', ''high'', ''low'', ''close'', ''adj_close'',
                 ''volume'', ''ingested_at''],
      rows = [(Position 0,
               [Text ''AAA'', Timestamp (jan 2), Val 10, Val 12, Val 9, Val 11, Val 11,
                Val 1000, Timestamp (ticking_clock 0)])]\<rparr>"

section \<open>Run identifiers and run records: proofs\<close>

lemma digit_char_0: "digit_char 0 = CHR ''0''"
  unfolding digit_char_def by code_simp

lemma zfill2_decimal:
  assumes "n < 100"
  shows "zfill 2 (decimal n) = [digit_char (n div 10), digit_char (n mod 10)]"
proof (cases "n < 10")
  case True
  then show ?thesis by (simp add: decimal.simps [of n] zfill_def digit_char_0)
next
  case False
  with assms have "n div 10 < 10" by simp
  with False show ?thesis
    by (simp add: decimal.simps [of n] decimal.simps [of "n div 10"] zfill_def)
qed

lemma zfill4_decimal:
  assumes "1000 \<le> n" "n < 10000"
  shows "zfill 4 (decimal n) =
    [digit_char (n div 1000), digit_char (n div 100 mod 10), digit_char (n div 10 mod 10), digit_char (n mod 10)]"
proof -
  have b: "n div 10 div 10 = n div 100" "n div 100 div 10 = n div 1000"
    by (simp_all add: div_mult2_eq [symmetric])
  have a: "\<not> n < 10" "\<not> n div 10 < 10" "\<not> n div 100 < 10" "n div 1000 < 10"
    using assms by simp_all
  have d3: "decimal (n div 1000) = [digit_char (n div 1000)]"
    using a by (simp add: decimal.simps [of "n div 1000"])
  have d2: "decimal (n div 100) = decimal (n div 1000) @ [digit_char (n div 100 mod 10)]"
    using a b by (simp add: decimal.simps [of "n div 100"])
  have d1: "decimal (n div 10) = decimal (n div 100) @ [digit_char (n div 10 mod 10)]"
    using a b by (simp add: decimal.simps [of "n div 10"])
  have d0: "decimal n = decimal (n div 10) @ [digit_char (n mod 10)]"
    using a by (simp add: decimal.simps [of n])
  show ?thesis
    by (simp add: d0 d1 d2 d3 zfill_def)
qed

lemma of_char_digit: "n < 10 \<Longrightarrow> (of_char (digit_char n) :: nat) = 48 + n"
  by (simp add: digit_char_def)

lemma digit_char_less: "a < 10 \<Longrightarrow> b < 10 \<Longrightarrow> digit_char a < digit_char b \<longleftrightarrow> a < b"
  by (simp add: less_char_def of_char_digit)

lemma digit_char_eq: "a < 10 \<Longrightarrow> b < 10 \<Longrightarrow> digit_char a = digit_char b \<longleftrightarrow> a = b"
  by (metis of_char_digit add_left_cancel)

lemma digit_chars_are_digits: "\<forall>n\<in>set [0..<10]. is_digit (digit_char n)"
  by code_simp

lemma is_digit_digit_char: "n < 10 \<Longrightarrow> is_digit (digit_char n)"
  using digit_chars_are_digits by simp

lemma hex_chars_are_hex: "\<forall>n\<in>set [0..<16]. is_hex (hex_char n)"
  by code_simp

lemma is_hex_hex_char: "n < 16 \<Longrightarrow> is_hex (hex_char n)"
  using hex_chars_are_hex by simp

lemma divmod_less_iff:
  fixes a b k :: nat
  shows "(a div k < b div k \<or> (a div k = b div k \<and> a mod k < b mod k)) \<longleftrightarrow> a < b"
proof (cases "a div k < b div k")
  case True
  then have "a < b" by (meson div_le_mono linorder_not_le)
  with True show ?thesis by simp
next
  case False
  show ?thesis
  proof (cases "a div k = b div k")
    case True
    have "a = k * (a div k) + a mod k" "b = k * (b div k) + b mod k" by simp_all
    with True show ?thesis by (metis nat_add_left_cancel_less less_irrefl)
  next
    case ne: False
    with False have "b div k < a div k" by simp
    then have "\<not> a < b" by (meson div_le_mono less_imp_le_nat linorder_not_le)
    with ne False show ?thesis by simp
  qed
qed

lemma divmod_eq_iff:
  fixes a b k :: nat
  shows "(a div k = b div k \<and> a mod k = b mod k) \<longleftrightarrow> a = b"
  by (metis div_mult_mod_eq)

lemma lex_append_same_length:
  fixes a b :: "('a::linorder) list"
  assumes "length a = length b"
  shows "a @ x < b @ y \<longleftrightarrow> a < b \<or> (a = b \<and> x < y)"
  using assms by (induction a b rule: list_induct2) auto

lemma length_zfill2: "n < 100 \<Longrightarrow> length (zfill 2 (decimal n)) = 2"
  by (simp add: zfill2_decimal)

lemma length_zfill4: "1000 \<le> n \<Longrightarrow> n < 10000 \<Longrightarrow> length (zfill 4 (decimal n)) = 4"
  by (simp add: zfill4_decimal)

lemma zfill2_less:
  assumes "a < 100" "b < 100"
  shows "zfill 2 (decimal a) < zfill 2 (decimal b) \<longleftrightarrow> a < b"
proof -
  have r: "a div 10 < 10" "b div 10 < 10" "a mod 10 < 10" "b mod 10 < 10" using assms by simp_all
  have "zfill 2 (decimal a) < zfill 2 (decimal b) \<longleftrightarrow>
      a div 10 < b div 10 \<or> (a div 10 = b div 10 \<and> a mod 10 < b mod 10)"
    using r assms by (simp add: zfill2_decimal digit_char_less digit_char_eq)
  then show ?thesis by (simp only: divmod_less_iff)
qed

lemma zfill2_eq:
  assumes "a < 100" "b < 100"
  shows "zfill 2 (decimal a) = zfill 2 (decimal b) \<longleftrightarrow> a = b"
proof -
  have r: "a div 10 < 10" "b div 10 < 10" "a mod 10 < 10" "b mod 10 < 10" using assms by simp_all
  have "zfill 2 (decimal a) = zfill 2 (decimal b) \<longleftrightarrow> (a div 10 = b div 10 \<and> a mod 10 = b mod 10)"
    using r assms by (simp add: zfill2_decimal digit_char_eq)
  then show ?thesis by (simp only: divmod_eq_iff)
qed

lemma zfill4_split:
  assumes "1000 \<le> n" "n < 10000"
  shows "zfill 4 (decimal n) = zfill 2 (decimal (n div 100)) @ zfill 2 (decimal (n mod 100))"
proof -
  have lt: "n div 100 < 100" "n mod 100 < 100" using assms by simp_all
  have e: "n div 100 div 10 = n div 1000" "n mod 100 div 10 = n div 10 mod 10"
    "n mod 100 mod 10 = n mod 10"
    by (simp_all add: div_mult2_eq [symmetric] mod_mult2_eq [of n 10 10, simplified] mod_mod_cancel)
  show ?thesis
    using assms lt by (simp add: zfill4_decimal zfill2_decimal e)
qed

lemma zfill4_less:
  assumes "1000 \<le> a" "a < 10000" "1000 \<le> b" "b < 10000"
  shows "zfill 4 (decimal a) @ x < zfill 4 (decimal b) @ y \<longleftrightarrow> a < b \<or> (a = b \<and> x < y)"
proof -
  have lt: "a div 100 < 100" "a mod 100 < 100" "b div 100 < 100" "b mod 100 < 100"
    using assms by simp_all
  have "zfill 4 (decimal a) @ x < zfill 4 (decimal b) @ y \<longleftrightarrow>
      (a div 100 < b div 100 \<or> (a div 100 = b div 100 \<and> a mod 100 < b mod 100))
      \<or> ((a div 100 = b div 100 \<and> a mod 100 = b mod 100) \<and> x < y)"
    using assms lt
    by (auto simp add: zfill4_split lex_append_same_length length_zfill2 zfill2_less zfill2_eq)
  then show ?thesis by (simp only: divmod_less_iff divmod_eq_iff)
qed

lemma zfill4_eq:
  assumes "1000 \<le> a" "a < 10000" "1000 \<le> b" "b < 10000"
  shows "zfill 4 (decimal a) = zfill 4 (decimal b) \<longleftrightarrow> a = b"
proof -
  have lt: "a div 100 < 100" "a mod 100 < 100" "b div 100 < 100" "b mod 100 < 100"
    using assms by simp_all
  have "zfill 4 (decimal a) = zfill 4 (decimal b) \<longleftrightarrow>
      (a div 100 = b div 100 \<and> a mod 100 = b mod 100)"
    using assms lt by (simp add: zfill4_split length_zfill2 zfill2_eq)
  then show ?thesis by (simp only: divmod_eq_iff)
qed

lemma zfill2_app_less:
  assumes "a < 100" "b < 100"
  shows "zfill 2 (decimal a) @ x < zfill 2 (decimal b) @ y \<longleftrightarrow> a < b \<or> (a = b \<and> x < y)"
  using assms by (simp add: lex_append_same_length length_zfill2 zfill2_less zfill2_eq)

lemma zfill2_app_eq:
  assumes "a < 100" "b < 100"
  shows "zfill 2 (decimal a) @ x = zfill 2 (decimal b) @ y \<longleftrightarrow> a = b \<and> x = y"
  using assms by (simp add: length_zfill2 zfill2_eq)

lemma zfill4_app_eq:
  assumes "1000 \<le> a" "a < 10000" "1000 \<le> b" "b < 10000"
  shows "zfill 4 (decimal a) @ x = zfill 4 (decimal b) @ y \<longleftrightarrow> a = b \<and> x = y"
  using assms by (simp add: length_zfill4 zfill4_eq)

lemma datetime_ok_bounds:
  assumes "datetime_ok d"
  shows "1000 \<le> year d" "year d < 10000" "month d < 100" "day d < 100" "hour d < 100"
    "minute d < 100" "second d < 100"
  using assms by (simp_all add: datetime_ok_def)

lemma strftime_less_iff:
  assumes "datetime_ok d" "datetime_ok e"
  shows "strftime_Ymd_HMS d @ x < strftime_Ymd_HMS e @ y \<longleftrightarrow>
     stamp_fields d < stamp_fields e \<or> (stamp_fields d = stamp_fields e \<and> x < y)"
  using datetime_ok_bounds [OF assms(1)] datetime_ok_bounds [OF assms(2)]
  by (simp add: strftime_Ymd_HMS_def stamp_fields_def zfill4_less zfill2_app_less) blast

lemma strftime_eq_iff:
  assumes "datetime_ok d" "datetime_ok e"
  shows "strftime_Ymd_HMS d @ x = strftime_Ymd_HMS e @ y \<longleftrightarrow>
     stamp_fields d = stamp_fields e \<and> x = y"
  using datetime_ok_bounds [OF assms(1)] datetime_ok_bounds [OF assms(2)]
  by (simp add: strftime_Ymd_HMS_def stamp_fields_def zfill4_app_eq zfill2_app_eq)

lemma is_stamp_strftime:
  assumes "datetime_ok d"
  shows "is_stamp (strftime_Ymd_HMS d)"
proof -
  note b = datetime_ok_bounds [OF assms]
  have dg: "\<And>n. n < 100 \<Longrightarrow> is_digit (digit_char (n div 10)) \<and> is_digit (digit_char (n mod 10))"
    by (simp add: is_digit_digit_char)
  have y: "is_digit (digit_char (year d div 1000))" "is_digit (digit_char (year d div 100 mod 10))"
    "is_digit (digit_char (year d div 10 mod 10))" "is_digit (digit_char (year d mod 10))"
    using b by (simp_all add: is_digit_digit_char)
  show ?thesis
    using b y dg [of "month d"] dg [of "day d"] dg [of "hour d"] dg [of "minute d"] dg [of "second d"]
    by (simp add: is_stamp_def strftime_Ymd_HMS_def zfill4_decimal zfill2_decimal)
qed

lemma is_hex8_uuid_prefix: "is_hex8 (take 8 (uuid_hex u))"
proof -
  have bound: "unat (x AND 15) < 16" for x :: "128 word"
  proof -
    have "unat (x AND 15) \<le> unat (15 :: 128 word)"
      unfolding word_le_nat_alt [symmetric] by (rule word_and_le1)
    then show ?thesis by simp
  qed
  have "list_all is_hex (uuid_hex u)"
    unfolding uuid_hex_def list_all_iff by (auto intro!: is_hex_hex_char bound)
  moreover have "length (take 8 (uuid_hex u)) = 8"
    by (simp add: uuid_hex_def)
  ultimately show ?thesis
    unfolding is_hex8_def list_all_iff by (auto dest: in_set_takeD)
qed

lemma generate_run_id_eq:
  "generate_run_id w =
     (run_id_of (clock w (ticks w)) (uuid4_of_bytes (urandom w (draws w))),
      w\<lparr>ticks := Suc (ticks w), draws := Suc (draws w)\<rparr>)"
  by (simp add: generate_run_id_def datetime_now_def uuid4_def)

lemma run_id_of_less:
  assumes "datetime_ok d" "datetime_ok e" "stamp_fields d < stamp_fields e"
  shows "run_id_of d u < run_id_of e v"
  using assms by (simp add: run_id_of_def strftime_less_iff)

lemma run_id_of_eq_iff:
  assumes "datetime_ok d" "datetime_ok e"
  shows "run_id_of d u = run_id_of e v \<longleftrightarrow>
     stamp_fields d = stamp_fields e \<and> take 8 (uuid_hex u) = take 8 (uuid_hex v)"
  using assms by (simp add: run_id_of_def strftime_eq_iff)

text \<open>
  Claim C4. Every call of \<^verbatim>\<open>generate_run_id()\<close> returns \<^verbatim>\<open>run_\<close>, the clock reading
  as \<^verbatim>\<open>YYYYMMDD_HHMMSS\<close>, an underscore and eight lower-case hexadecimal digits taken from
  the random UUID; the function is total, so no call raises. Of two calls whose clock
  readings lie in different seconds, the one with the later reading returns the
  lexicographically greater id.
\<close>
theorem generate_run_id_format_sortable:
  assumes "datetime_ok (clock w (ticks w))" and "datetime_ok (clock w' (ticks w'))"
  shows "fst (generate_run_id w) =
           ''run_'' @ strftime_Ymd_HMS (clock w (ticks w)) @ ''_''
             @ take 8 (uuid_hex (uuid4_of_bytes (urandom w (draws w))))
         \<and> is_stamp (strftime_Ymd_HMS (clock w (ticks w)))
         \<and> is_hex8 (take 8 (uuid_hex (uuid4_of_bytes (urandom w (draws w)))))
         \<and> (stamp_fields (clock w (ticks w)) < stamp_fields (clock w' (ticks w'))
              \<longrightarrow> fst (generate_run_id w) < fst (generate_run_id w'))"
  using assms
  by (simp add: generate_run_id_eq is_stamp_strftime is_hex8_uuid_prefix run_id_of_less)
    (simp add: run_id_of_def)

theorem generate_run_id_format_sortable_witness:
  "is_stamp (strftime_Ymd_HMS (clock ticking_world (ticks ticking_world)))
   \<and> fst (generate_run_id ticking_world)
       < fst (generate_run_id (snd (generate_run_id ticking_world)))"
proof -
  let ?w' = "snd (generate_run_id ticking_world)"
  have h1: "datetime_ok (clock ticking_world (ticks ticking_world))"
    by (simp add: ticking_world_def ticking_clock_def datetime_ok_def)
  have h2: "datetime_ok (clock ?w' (ticks ?w'))"
    by (simp add: generate_run_id_eq ticking_world_def ticking_clock_def datetime_ok_def)
  have h3: "stamp_fields (clock ticking_world (ticks ticking_world))
      < stamp_fields (clock ?w' (ticks ?w'))"
    by (simp add: generate_run_id_eq ticking_world_def ticking_clock_def stamp_fields_def)
  from generate_run_id_format_sortable [OF h1 h2] h3 show ?thesis by blast
qed

lemma generate_run_ids_eq:
  "fst (generate_run_ids w n) =
     map (\<lambda>i. run_id_of (clock w (ticks w + i)) (uuid4_of_bytes (urandom w (draws w + i)))) [0..<n]"
proof (induction n arbitrary: w)
  case 0
  then show ?case by simp
next
  case (Suc n)
  show ?case
    unfolding map_upt_Suc
    by (simp add: generate_run_id_eq Suc.IH split_beta Let_def)
qed

lemma distinct_map_upt_cong:
  assumes "\<And>i j. i < n \<Longrightarrow> j < n \<Longrightarrow> (f i = f j) = (g i = g j)"
  shows "distinct (map f [0..<n]) = distinct (map g [0..<n])"
  using assms by (simp add: distinct_conv_nth)

text \<open>
  Claim C5, as amended. The ids of \<open>n\<close> successive calls are pairwise distinct exactly when
  no two of the calls agree both on the clock second and on the first eight hexadecimal
  digits of their UUID. Two calls in the same second whose UUIDs start alike return the same
  id, although the UUIDs themselves differ.
\<close>
theorem run_ids_distinct_iff:
  assumes "\<forall>i<n. datetime_ok (clock w (ticks w + i))"
  shows "distinct (fst (generate_run_ids w n)) \<longleftrightarrow>
     distinct (map (\<lambda>i. (stamp_fields (clock w (ticks w + i)),
                          take 8 (uuid_hex (uuid4_of_bytes (urandom w (draws w + i)))))) [0..<n])"
  unfolding generate_run_ids_eq
  by (rule distinct_map_upt_cong) (use assms in \<open>simp add: run_id_of_eq_iff\<close>)

theorem run_ids_distinct_iff_witness:
  "distinct (fst (generate_run_ids ticking_world 2))"
proof -
  have h: "\<forall>i<2. datetime_ok (clock ticking_world (ticks ticking_world + i))"
    by (simp add: ticking_world_def ticking_clock_def datetime_ok_def)
  have u: "[0..<2] = [0, 1]" by code_simp
  show ?thesis
    unfolding run_ids_distinct_iff [OF h] u
    by (simp add: ticking_world_def ticking_clock_def stamp_fields_def)
qed

theorem run_ids_collide_counterexample:
  "\<not> distinct (fst (generate_run_ids same_second_world 2))"
  by code_simp

text \<open>
  Claim C1, as amended. \<^verbatim>\<open>create_run_metadata\<close> stores the \<^verbatim>\<open>error_message\<close> and the
  \<^verbatim>\<open>status\<close> it is given, unchanged and unchecked against each other; with the default
  \<^verbatim>\<open>error_message=None\<close> the record has no error message, whatever the status.
\<close>
theorem create_run_metadata_error_message:
  "error_message (fst (create_run_metadata w dataset st loaded err)) = err
   \<and> status (fst (create_run_metadata w dataset st loaded err)) = st
   \<and> error_message (fst (create_run_metadata w dataset st loaded None)) = None"
  by (simp add: create_run_metadata_def split_beta Let_def)

theorem create_run_metadata_error_counterexample:
  "\<not> (error_message (fst (create_run_metadata same_second_world ''prices'' ''started'' 0 (Some ''boom''))) \<noteq> None
       \<longrightarrow> status (fst (create_run_metadata same_second_world ''prices'' ''started'' 0 (Some ''boom''))) = ''failed'')"
  by (simp add: create_run_metadata_def split_beta Let_def)

text \<open>
  Claim C3. With every optional argument at its default, \<^verbatim>\<open>create_run_metadata\<close> returns
  (the function is total) the record with status \<^verbatim>\<open>started\<close>, no records loaded, no error
  message, the given dataset name, the id of a new \<^verbatim>\<open>generate_run_id()\<close> call, which reads
  the clock and draws a new UUID, and the next clock reading as its timestamp.
\<close>
theorem create_run_metadata_default_result:
  "create_run_metadata_default w dataset =
     (\<lparr>run_id = fst (generate_run_id w),
       dataset_name = dataset,
       run_timestamp = clock w (Suc (ticks w)),
       status = ''started'',
       records_loaded = 0,
       error_message = None\<rparr>,
      w\<lparr>ticks := Suc (Suc (ticks w)), draws := Suc (draws w)\<rparr>)
   \<and> fst (generate_run_id w) = run_id_of (clock w (ticks w)) (uuid4_of_bytes (urandom w (draws w)))"
  by (simp add: create_run_metadata_default_def create_run_metadata_def generate_run_id_eq
      datetime_now_def)

section \<open>Company information: proofs\<close>

lemma company_records_length:
  "length (fst (company_records ticker_info w k ts)) = length ts"
  by (induction ts arbitrary: w k) (simp_all add: split_beta Let_def)

lemma company_records_world:
  "snd (company_records ticker_info w k ts) = w\<lparr>ticks := ticks w + length ts\<rparr>"
  by (induction ts arbitrary: w k)
    (simp_all add: split_beta Let_def datetime_now_def split: sum.splits)

lemma company_records_nth:
  "i < length ts \<Longrightarrow>
   fst (company_records ticker_info w k ts) ! i =
     record_of_outcome (ts ! i) (clock w (ticks w + i)) (ticker_info (k + i) (ts ! i))"
proof (induction ts arbitrary: w k i)
  case Nil
  then show ?case by simp
next
  case (Cons t ts)
  show ?case
  proof (cases i)
    case 0
    then show ?thesis
      by (simp add: split_beta Let_def datetime_now_def record_of_outcome_def split: sum.splits)
  next
    case (Suc j)
    with Cons.prems have "j < length ts" by simp
    from Cons.IH [OF this] Suc show ?thesis
      by (simp add: split_beta Let_def datetime_now_def split: sum.splits)
  qed
qed

lemma set_first_occurrences [simp]: "set (first_occurrences ls) = set ls"
  by (simp add: first_occurrences_def)

lemma distinct_first_occurrences [simp]: "distinct (first_occurrences ls)"
  by (simp add: first_occurrences_def)

lemma cell_at_map: "cell_at cols (map f cols) l = (if l \<in> set cols then f l else Null)"
  by (simp add: cell_at_def map_of_zip_map)

lemma length_renumber [simp]: "length (renumber css) = length css"
  by (simp add: renumber_def)

lemma renumber_nth: "i < length css \<Longrightarrow> renumber css ! i = (Position i, css ! i)"
  by (simp add: renumber_def nth_enumerate_eq)

lemma map_fst_renumber: "map fst (renumber css) = map Position [0..<length css]"
  by (rule nth_equalityI) (simp_all add: renumber_nth)

lemma map_snd_renumber [simp]: "map snd (renumber css) = css"
  by (rule nth_equalityI) (simp_all add: renumber_nth)

lemma DataFrame_rows_length [simp]:
  "length (rows (DataFrame_of_records rs)) = length rs"
  by (simp add: DataFrame_of_records_def Let_def)

lemma DataFrame_cell:
  assumes "i < length rs" "l \<in> fst ` set (rs ! i)"
  shows "cell_at (columns (DataFrame_of_records rs)) (snd (rows (DataFrame_of_records rs) ! i)) l
         = dict_get (rs ! i) l Null"
proof -
  have "rs ! i \<in> set rs" using assms(1) by simp
  with assms(2) have "l \<in> set (concat (map (map fst) rs))" by auto
  then show ?thesis
    using assms(1) by (simp add: DataFrame_of_records_def Let_def renumber_nth cell_at_map)
qed

lemma DataFrame_cell_absent:
  assumes "i < length rs" "l \<notin> fst ` set (rs ! i)"
  shows "cell_at (columns (DataFrame_of_records rs)) (snd (rows (DataFrame_of_records rs) ! i)) l
         = Null"
proof -
  have "map_of (rs ! i) l = None" using assms(2) by (simp add: map_of_eq_None_iff)
  then show ?thesis
    using assms(1)
    by (simp add: DataFrame_of_records_def Let_def renumber_nth cell_at_map dict_get_def)
qed

lemma record_of_outcome_symbol:
  "dict_get (record_of_outcome name now r) ''symbol'' Null = Text name"
  "''symbol'' \<in> fst ` set (record_of_outcome name now r)"
  by (simp_all add: record_of_outcome_def dict_get_def company_record_def error_record_def
      split: sum.splits)

text \<open>
  Claim C10. \<^verbatim>\<open>extract_yahoo_company_info\<close> returns one row for each input symbol, fetched or
  not: the table has as many rows as the list has symbols, the \<^verbatim>\<open>symbol\<close> cells of the
  rows are the input symbols in input order, and the rows are numbered from 0.
\<close>

theorem company_info_one_row_per_symbol:
  "length (rows (fst (extract_yahoo_company_info ticker_info w tickers))) = length tickers
   \<and> map (\<lambda>(i, cs). cell_at (columns (fst (extract_yahoo_company_info ticker_info w tickers)))
                        cs ''symbol'')
         (rows (fst (extract_yahoo_company_info ticker_info w tickers))) = map Text tickers
   \<and> map fst (rows (fst (extract_yahoo_company_info ticker_info w tickers)))
       = map Position [0..<length tickers]"
proof -
  let ?rs = "fst (company_records ticker_info w 0 tickers)"
  let ?df = "DataFrame_of_records ?rs"
  have df: "fst (extract_yahoo_company_info ticker_info w tickers) = ?df"
    by (simp add: extract_yahoo_company_info_def split_beta)
  have len: "length (rows ?df) = length tickers"
    by (simp add: company_records_length)
  have cells: "map (\<lambda>(i, cs). cell_at (columns ?df) cs ''symbol'') (rows ?df) = map Text tickers"
  proof (rule nth_equalityI)
    show "length (map (\<lambda>(i, cs). cell_at (columns ?df) cs ''symbol'') (rows ?df))
        = length (map Text tickers)"
      using len by simp
  next
    fix i
    assume "i < length (map (\<lambda>(i, cs). cell_at (columns ?df) cs ''symbol'') (rows ?df))"
    then have i: "i < length tickers" using len by simp
    then have i': "i < length ?rs" by (simp add: company_records_length)
    have "cell_at (columns ?df) (snd (rows ?df ! i)) ''symbol'' = Text (tickers ! i)"
      using DataFrame_cell [OF i', of "''symbol''"] i
      by (simp add: company_records_nth record_of_outcome_symbol)
    then show "map (\<lambda>(i, cs). cell_at (columns ?df) cs ''symbol'') (rows ?df) ! i
        = map Text tickers ! i"
      using i len by (simp add: split_beta)
  qed
  have idx: "map fst (rows ?df) = map Position [0..<length tickers]"
    by (simp add: DataFrame_of_records_def Let_def map_fst_renumber company_records_length)
  show ?thesis
    unfolding df using len cells idx by blast
qed

text \<open>
  Claim C6. When the fetch of the \<open>i\<close>-th symbol raises, no exception leaves
  \<^verbatim>\<open>extract_yahoo_company_info\<close> (the function is total): the record of that symbol has the
  three keys \<^verbatim>\<open>symbol\<close>, \<^verbatim>\<open>ingested_at\<close> and \<^verbatim>\<open>error\<close>, the last one the text of
  the exception; its row of the table is null in every other column; the table still has one
  row for each symbol, and every symbol whose fetch returns gets its full record.
\<close>

theorem company_info_failed_symbol:
  assumes "i < length tickers" and "ticker_info i (tickers ! i) = Inl e"
  shows "(let records = fst (company_records ticker_info w 0 tickers);
              df = fst (extract_yahoo_company_info ticker_info w tickers);
              row = snd (rows df ! i)
          in records ! i = [(''symbol'', Text (tickers ! i)),
                            (''ingested_at'', Timestamp (clock w (ticks w + i))),
                            (''error'', Text (exn_str e))]
             \<and> length (rows df) = length tickers
             \<and> cell_at (columns df) row ''symbol'' = Text (tickers ! i)
             \<and> cell_at (columns df) row ''ingested_at'' = Timestamp (clock w (ticks w + i))
             \<and> cell_at (columns df) row ''error'' = Text (exn_str e)
             \<and> (\<forall>l. l \<notin> {''symbol'', ''ingested_at'', ''error''}
                    \<longrightarrow> cell_at (columns df) row l = Null)
             \<and> (\<forall>j<length tickers. \<forall>info. ticker_info j (tickers ! j) = Inr info
                    \<longrightarrow> records ! j = company_record (tickers ! j) info (clock w (ticks w + j))))"
proof -
  let ?rs = "fst (company_records ticker_info w 0 tickers)"
  let ?df = "DataFrame_of_records ?rs"
  let ?r = "[(''symbol'', Text (tickers ! i)),
             (''ingested_at'', Timestamp (clock w (ticks w + i))),
             (''error'', Text (exn_str e))] :: 'a pydict"
  have df: "fst (extract_yahoo_company_info ticker_info w tickers) = ?df"
    by (simp add: extract_yahoo_company_info_def split_beta)
  have i': "i < length ?rs" using assms(1) by (simp add: company_records_length)
  have r: "?rs ! i = ?r"
    using assms by (simp add: company_records_nth record_of_outcome_def error_record_def)
  have keys: "fst ` set (?rs ! i) = {''symbol'', ''ingested_at'', ''error''}"
    unfolding r by auto
  have present: "cell_at (columns ?df) (snd (rows ?df ! i)) l = dict_get ?r l Null"
    if "l \<in> {''symbol'', ''ingested_at'', ''error''}" for l
    using DataFrame_cell [OF i', of l] that unfolding keys r by simp
  have absent: "cell_at (columns ?df) (snd (rows ?df ! i)) l = Null"
    if "l \<notin> {''symbol'', ''ingested_at'', ''error''}" for l
    using DataFrame_cell_absent [OF i', of l] that unfolding keys by simp
  have others: "?rs ! j = company_record (tickers ! j) info (clock w (ticks w + j))"
    if "j < length tickers" "ticker_info j (tickers ! j) = Inr info" for j info
    using that by (simp add: company_records_nth record_of_outcome_def)
  have len: "length (rows ?df) = length tickers"
    by (simp add: company_records_length)
  show ?thesis
    unfolding Let_def df
    using r len present [of "''symbol''"] present [of "''ingested_at''"] present [of "''error''"]
      absent others
    by (simp add: dict_get_def)
qed

theorem company_info_failed_symbol_witness:
  "fst (company_records sample_ticker_info ticking_world 0 [''AAA'', ''BBB'', ''CCC'']) ! 1
     = [(''symbol'', Text ''BBB''), (''ingested_at'', Timestamp (ticking_clock 1)),
        (''error'', Text ''404 Not Found'')]
   \<and> length (rows (fst (extract_yahoo_company_info sample_ticker_info ticking_world
                          [''AAA'', ''BBB'', ''CCC'']))) = 3"
proof -
  have h1: "1 < length [''AAA'', ''BBB'', ''CCC'']" by simp
  have h2: "sample_ticker_info 1 ([''AAA'', ''BBB'', ''CCC''] ! 1)
      = Inl (Exn (OtherException ''HTTPError'') ''404 Not Found'')"
    by (simp add: sample_ticker_info_def)
  show ?thesis
    using company_info_failed_symbol [where i = 1 and tickers = "[''AAA'', ''BBB'', ''CCC'']"
        and ticker_info = sample_ticker_info and w = ticking_world, OF h1 h2]
    by (simp add: Let_def ticking_world_def)
qed

lemma extract_yahoo_prices_empty:
  "extract_yahoo_prices yf_download w [] start_date end_date period =
     (case yf_download (download_request [] start_date end_date period) of
        Inl e \<Rightarrow> (Inl e, w) | Inr data \<Rightarrow> (Inr empty_frame, w))"
  by (simp add: extract_yahoo_prices_def split: sum.splits)

text \<open>
  Claim C9, as amended. For the empty list \<^verbatim>\<open>extract_yahoo_company_info\<close> returns the empty
  table. \<^verbatim>\<open>extract_yahoo_prices\<close> hands the empty list to the download first: when the
  download returns, whatever it returns, the result is the empty table; when the download
  raises, its exception leaves the extractor.
\<close>

theorem extractors_empty_ticker_list:
  "extract_yahoo_company_info ticker_info w [] = (empty_frame, w)
   \<and> (\<forall>data. yf_download (download_request [] start_date end_date period) = Inr data
         \<longrightarrow> extract_yahoo_prices yf_download w [] start_date end_date period
               = (Inr empty_frame, w))
   \<and> (\<forall>e. yf_download (download_request [] start_date end_date period) = Inl e
         \<longrightarrow> extract_yahoo_prices yf_download w [] start_date end_date period = (Inl e, w))"
  by (simp add: extract_yahoo_company_info_def DataFrame_of_records_def first_occurrences_def
      renumber_def empty_frame_def extract_yahoo_prices_empty)

theorem extractors_empty_ticker_list_witness:
  "extract_yahoo_prices sample_download ticking_world [] None None ''1y''
     = (Inr empty_frame, ticking_world)
   \<and> extract_yahoo_prices failing_download ticking_world [] None None ''1y''
     = (Inl (Exn ValueError ''No objects to concatenate''), ticking_world)"
proof -
  have h1: "sample_download (download_request [] None None ''1y'') = Inr sample_data"
    by (simp add: sample_download_def)
  have h2: "failing_download (download_request [] None None ''1y'')
      = Inl (Exn ValueError ''No objects to concatenate'')"
    by (simp add: failing_download_def)
  from extractors_empty_ticker_list [of _ ticking_world sample_download None None "''1y''"] h1
  have a: "extract_yahoo_prices sample_download ticking_world [] None None ''1y''
     = (Inr empty_frame, ticking_world)" by blast
  from extractors_empty_ticker_list [of _ ticking_world failing_download None None "''1y''"] h2
  have b: "extract_yahoo_prices failing_download ticking_world [] None None ''1y''
     = (Inl (Exn ValueError ''No objects to concatenate''), ticking_world)" by blast
  from a b show ?thesis by blast
qed

theorem extract_prices_empty_list_counterexample:
  "fst (extract_yahoo_prices failing_download ticking_world [] None None ''1y'')
     = Inl (Exn ValueError ''No objects to concatenate'')"
  by (simp add: extract_yahoo_prices_empty failing_download_def)

section \<open>Prices: proofs\<close>

lemma relabel_values:
  "relabel ''Date'' = ''date''" "relabel ''Open'' = ''open''" "relabel ''High'' = ''high''"
  "relabel ''Low'' = ''low''" "relabel ''Close'' = ''close''"
  "relabel ''Adj Close'' = ''adj_close''" "relabel ''Volume'' = ''volume''"
  "relabel ''symbol'' = ''symbol''"
  by code_simp+

lemma map_renumber: "map (\<lambda>(k, cs). (k, h cs)) (renumber css) = renumber (map h css)"
  by (rule nth_equalityI) (simp_all add: renumber_nth)

lemma map_snd_renumber_comp: "map (\<lambda>(k, cs). h cs) (renumber css) = map h css"
  by (rule nth_equalityI) (simp_all add: renumber_nth)

lemma filter_eq_distinct: "distinct C \<Longrightarrow> x \<in> set C \<Longrightarrow> filter (\<lambda>c. c = x) C = [x]"
proof (induction C)
  case Nil
  then show ?case by simp
next
  case (Cons a C)
  show ?case
  proof (cases "a = x")
    case True
    with Cons.prems have "x \<notin> set C" by simp
    then have "filter (\<lambda>c. c = x) C = []" by (auto simp add: filter_empty_conv)
    with True show ?thesis by simp
  next
    case False
    with Cons show ?thesis by simp
  qed
qed

lemma filter_inj_on:
  assumes "inj_on r (set C)" "x \<in> set C"
  shows "filter (\<lambda>c. r c = r x) C = filter (\<lambda>c. c = x) C"
  by (rule filter_cong [OF refl]) (use assms in \<open>auto simp: inj_on_def\<close>)

lemma select_labels:
  assumes "distinct C" "inj_on r (set C)" "x \<in> set C"
  shows "filter (\<lambda>c. c = r x) (map r C) = [r x]"
  using assms by (simp add: filter_map o_def filter_inj_on filter_eq_distinct)

lemma select_cells:
  assumes "distinct C" "inj_on r (set C)" "x \<in> set C"
  shows "map snd (filter (\<lambda>(c, v). c = r x) (zip (map r C) (map g C))) = [g x]"
proof -
  have "zip (map r C) (map g C) = map (\<lambda>c. (r c, g c)) C"
    by (induction C) simp_all
  then show ?thesis
    using assms by (simp add: filter_map o_def filter_inj_on filter_eq_distinct)
qed

lemma relabel_inj: "inj_on relabel (set (''Date'' # price_labels @ [''symbol'']))"
  by (simp add: price_labels_def relabel_values)

lemma columns_relabel:
  "columns (rename_columns column_mapping (lower_columns df)) = map relabel (columns df)"
  by (simp add: rename_columns_def lower_columns_def relabel_def o_def)

lemma rows_relabel:
  "rows (rename_columns column_mapping (lower_columns df)) = rows df"
  by (simp add: rename_columns_def lower_columns_def)

lemma select_row:
  assumes "distinct C" "inj_on r (set C)" "set F \<subseteq> set C"
  shows "concat (map (\<lambda>x. map snd (filter (\<lambda>(c, v). c = r x) (zip (map r C) (map g C))))
           F) = map g F"
  using assms(3) by (induction F) (simp_all add: select_cells [OF assms(1,2)])

lemma select_columns:
  assumes "distinct C" "inj_on r (set C)" "set F \<subseteq> set C"
  shows "concat (map (\<lambda>l. filter (\<lambda>c. c = l) (map r C)) (map r F)) = map r F"
  using assms(3) by (induction F) (simp_all add: select_labels [OF assms(1,2)])

lemma getitem_relabel_tab:
  assumes "distinct C" "inj_on relabel (set C)" "set F \<subseteq> set C"
  shows "getitem_columns (rename_columns column_mapping (lower_columns (tab C gs)))
           (map relabel F)
         = Inr \<lparr>index_name = None, columns = map relabel F,
                 rows = renumber (map (\<lambda>g. map g F) gs)\<rparr>"
proof -
  let ?d = "rename_columns column_mapping (lower_columns (tab C gs))"
  have c: "columns ?d = map relabel C" by (simp add: columns_relabel tab_def)
  have r: "rows ?d = renumber (map (\<lambda>g. map g C) gs)" by (simp add: rows_relabel tab_def)
  have n: "index_name ?d = None" by (simp add: rename_columns_def lower_columns_def tab_def)
  have present: "\<not> (\<exists>l\<in>set (map relabel F). l \<notin> set (columns ?d))"
    using assms(3) unfolding c by auto
  have rows': "map (\<lambda>(i, cs). (i, concat (map (\<lambda>l. map snd
                  (filter (\<lambda>(c, v). c = l) (zip (columns ?d) cs))) (map relabel F))))
                (rows ?d) = renumber (map (\<lambda>g. map g F) gs)"
    unfolding c r map_renumber
    by (simp add: o_def select_row [OF assms])
  have cols': "concat (map (\<lambda>l. filter (\<lambda>c. c = l) (columns ?d)) (map relabel F)) = map relabel F"
    unfolding c by (rule select_columns [OF assms])
  have "getitem_columns ?d (map relabel F)
      = Inr (?d\<lparr>columns := map relabel F, rows := renumber (map (\<lambda>g. map g F) gs)\<rparr>)"
    unfolding getitem_columns_def using present by (simp only: if_False rows' cols')
  also have "?d\<lparr>columns := map relabel F, rows := renumber (map (\<lambda>g. map g F) gs)\<rparr>
      = \<lparr>index_name = None, columns = map relabel F, rows = renumber (map (\<lambda>g. map g F) gs)\<rparr>"
    using n by simp
  finally show ?thesis .
qed

lemma final_columns_relabel: "final_columns = map relabel source_labels"
  by (simp add: final_columns_def source_labels_def relabel_values)

lemma set_renumberD: "(k, cs) \<in> set (renumber css) \<Longrightarrow> cs \<in> set css"
  by (auto simp add: renumber_def enumerate_eq_zip dest: set_zip_rightD)

lemma normalize_tab:
  assumes "distinct C" "set C = set (''Date'' # price_labels @ [''symbol''])"
  shows "normalize_prices w (tab C gs) =
     (Inr \<lparr>index_name = None, columns = price_columns,
            rows = filter has_close_and_volume (renumber (map (\<lambda>g.
                     [g ''symbol'', g ''Date'', g ''Open'', g ''High'', g ''Low'', g ''Close'',
                      g ''Adj Close'', g ''Volume'', Timestamp (clock w (ticks w))]) gs))\<rparr>,
      w\<lparr>ticks := Suc (ticks w)\<rparr>)"
proof -
  let ?now = "Timestamp (clock w (ticks w)) :: 'a cell"
  let ?h = "\<lambda>g :: string \<Rightarrow> 'a cell. [g ''symbol'', g ''Date'', g ''Open'', g ''High'', g ''Low'',
              g ''Close'', g ''Adj Close'', g ''Volume'', ?now]"
  have inj: "inj_on relabel (set C)" unfolding assms(2) by (rule relabel_inj)
  have sub: "set source_labels \<subseteq> set C"
    unfolding assms(2) by (simp add: source_labels_def price_labels_def)
  have sel: "getitem_columns (rename_columns column_mapping (lower_columns (tab C gs))) final_columns
      = Inr \<lparr>index_name = None, columns = final_columns,
              rows = renumber (map (\<lambda>g. map g source_labels) gs)\<rparr>"
    using getitem_relabel_tab [OF assms(1) inj sub, of gs]
    by (simp add: final_columns_relabel [symmetric])
  have stamped: "setitem \<lparr>index_name = None, columns = final_columns,
              rows = renumber (map (\<lambda>g. map g source_labels) gs)\<rparr> ''ingested_at'' ?now
      = \<lparr>index_name = None, columns = final_columns @ [''ingested_at''],
         rows = renumber (map ?h gs)\<rparr>"
    by (simp add: setitem_def final_columns_def map_renumber o_def source_labels_def)
  have flt: "filter (\<lambda>(i, cs). \<forall>(l, c)\<in>set (zip (final_columns @ [''ingested_at'']) cs).
                 l \<in> set [''close'', ''volume''] \<longrightarrow> \<not> is_null c) (renumber (map ?h gs))
      = filter has_close_and_volume (renumber (map ?h gs))"
  proof (rule filter_cong [OF refl])
    fix x assume "x \<in> set (renumber (map ?h gs))"
    then obtain g where "snd x = ?h g"
      using set_renumberD [of "fst x" "snd x" "map ?h gs"] by auto
    then show "(case x of (i, cs) \<Rightarrow> \<forall>(l, c)\<in>set (zip (final_columns @ [''ingested_at'']) cs).
                 l \<in> set [''close'', ''volume''] \<longrightarrow> \<not> is_null c) = has_close_and_volume x"
      by (simp add: split_beta has_close_and_volume_def price_columns_def cell_at_def final_columns_def)
  qed
  have dropped: "dropna [''close'', ''volume'']
        \<lparr>index_name = None, columns = final_columns @ [''ingested_at''],
         rows = renumber (map ?h gs)\<rparr>
      = Inr \<lparr>index_name = None, columns = final_columns @ [''ingested_at''],
         rows = filter has_close_and_volume (renumber (map ?h gs))\<rparr>"
    unfolding dropna_def using flt by (simp add: final_columns_def)
  show ?thesis
    unfolding normalize_prices_def sel
    by (simp add: datetime_now_def stamped dropped price_columns_def)
qed

lemma aligned_cells:
  assumes "distinct cols" "length cs = length cols"
  shows "map (cell_at cols cs) cols = cs"
proof (rule nth_equalityI)
  show "length (map (cell_at cols cs) cols) = length cs" using assms by simp
next
  fix k assume "k < length (map (cell_at cols cs) cols)"
  then have k: "k < length cs" using assms by simp
  have "map_of (zip cols cs) (cols ! k) = Some (cs ! k)"
    using assms k by (intro map_of_zip_nth) simp_all
  then show "map (cell_at cols cs) cols ! k = cs ! k"
    using k assms by (simp add: cell_at_def)
qed

lemma price_frame_labels:
  assumes "price_frame f"
  shows "''symbol'' \<notin> set (columns f)" "''Date'' \<notin> set (columns f)"
  using assms by (simp_all add: price_frame_def price_labels_def)

lemma prepare_price_frame:
  assumes "price_frame f"
  shows "reset_index (setitem f ''symbol'' (Text t))
         = Inr (tab (''Date'' # columns f @ [''symbol''])
                  (map (source_row t (columns f)) (rows f)))"
proof -
  note nl = price_frame_labels [OF assms]
  have row: "fst r # snd r @ [Text t]
      = map (source_row t (columns f) r) (''Date'' # columns f @ [''symbol''])"
    if "r \<in> set (rows f)" for r
  proof -
    from that assms have len: "length (snd r) = length (columns f)"
      by (auto simp add: price_frame_def)
    have "map (source_row t (columns f) r) (columns f) = map (cell_at (columns f) (snd r)) (columns f)"
      by (rule map_cong [OF refl]) (use nl in \<open>auto simp add: source_row_def\<close>)
    also have "\<dots> = snd r"
      using assms len by (intro aligned_cells) (simp_all add: price_frame_def)
    finally show ?thesis by (simp add: source_row_def)
  qed
  have rows_eq: "map ((\<lambda>(x, y). x # y) \<circ> (\<lambda>(i, cs). (i, cs @ [Text t]))) (rows f)
      = map ((\<lambda>g. g ''Date'' # map g (columns f) @ [g ''symbol'']) \<circ> source_row t (columns f))
          (rows f)"
    by (rule map_cong [OF refl]) (use row in \<open>simp add: split_beta\<close>)
  have s: "setitem f ''symbol'' (Text t)
      = f\<lparr>columns := columns f @ [''symbol''],
          rows := map (\<lambda>(i, cs). (i, cs @ [Text t])) (rows f)\<rparr>"
    using nl by (simp add: setitem_def)
  have idx: "index_name f = Some ''Date''" using assms by (simp add: price_frame_def)
  show ?thesis
    unfolding s reset_index_def tab_def using nl idx
    by (simp add: Let_def rows_eq)
qed

lemma collect_tickers_ok:
  assumes "\<forall>t\<in>set ts. fetch_failed (getitem_ticker data t) \<or> fetch_succeeded (getitem_ticker data t)"
  shows "collect_tickers data ts
         = Inr (map (\<lambda>(C, gs). tab C gs) (concat (map (\<lambda>t. prepared_of t (getitem_ticker data t)) ts)))"
  using assms
proof (induction ts)
  case Nil
  then show ?case by simp
next
  case (Cons t ts)
  then have IH: "collect_tickers data ts
         = Inr (map (\<lambda>(C, gs). tab C gs) (concat (map (\<lambda>t. prepared_of t (getitem_ticker data t)) ts)))"
    by simp
  show ?case
  proof (cases "getitem_ticker data t")
    case (Inl e)
    with Cons.prems have "exn_class e = KeyError"
      by (simp add: fetch_failed_def fetch_succeeded_def)
    with Inl IH show ?thesis by (simp add: prepared_of_def)
  next
    case (Inr f)
    with Cons.prems have "price_frame f"
      by (simp add: fetch_failed_def fetch_succeeded_def)
    from prepare_price_frame [OF this, of t] Inr IH show ?thesis
      by (simp add: prepared_of_def prepared_def)
  qed
qed

lemma map_snd_rows_tab: "map snd (rows (tab C gs)) = map (\<lambda>g. map g C) gs"
  by (simp add: tab_def)

lemma pd_concat_tabs:
  assumes "xs \<noteq> []" and "\<forall>(C, gs)\<in>set xs. distinct C \<and> set C = S"
  shows "\<exists>C0. distinct C0 \<and> set C0 = S
           \<and> pd_concat (map (\<lambda>(C, gs). tab C gs) xs) = Inr (tab C0 (concat (map snd xs)))"
proof -
  define dfs where "dfs = map (\<lambda>(C, gs). tab C gs) xs"
  have ne: "dfs \<noteq> []" using assms(1) by (simp add: dfs_def)
  have cols: "columns (tab C gs) = C" for C and gs :: "(string \<Rightarrow> 'a cell) list"
    by (simp add: tab_def)
  have all_cols: "map columns dfs = map fst xs"
    by (simp add: dfs_def o_def split_beta cols)
  have hd_cols: "columns (hd dfs) = fst (hd xs)"
    using assms(1) by (cases xs) (simp_all add: dfs_def split_beta cols)
  have all_ok: "distinct (fst x) \<and> set (fst x) = S" if "x \<in> set xs" for x
    using assms(2) that by (auto simp add: split_beta)
  show ?thesis
  proof (cases "\<forall>df\<in>set dfs. columns df = columns (hd dfs)")
    case True
    define C0 where "C0 = fst (hd xs)"
    have "hd xs \<in> set xs" using assms(1) by simp
    from all_ok [OF this] have ok: "distinct C0" "set C0 = S" by (simp_all add: C0_def)
    have same: "fst x = C0" if "x \<in> set xs" for x
    proof -
      from that have "tab (fst x) (snd x) \<in> set dfs" by (force simp add: dfs_def split_beta)
      with True have "columns (tab (fst x) (snd x)) = columns (hd dfs)" by blast
      then show ?thesis by (simp add: cols hd_cols C0_def)
    qed
    have "map (\<lambda>df. map snd (rows df)) dfs = map (\<lambda>x. map (\<lambda>g. map g C0) (snd x)) xs"
      unfolding dfs_def map_map
      by (rule map_cong [OF refl]) (simp add: split_beta map_snd_rows_tab same)
    then have "concat (map (\<lambda>df. map snd (rows df)) dfs)
        = map (\<lambda>g. map g C0) (concat (map snd xs))"
      by (simp add: map_concat o_def)
    then have "pd_concat dfs = Inr (tab C0 (concat (map snd xs)))"
      unfolding pd_concat_def if_not_P [OF ne] if_P [OF True]
      by (simp add: tab_def hd_cols C0_def)
    with ok show ?thesis unfolding dfs_def by blast
  next
    case False
    define C0 where "C0 = first_occurrences (concat (map columns dfs))"
    have dist: "\<not> (\<exists>df\<in>set dfs. \<not> distinct (columns df))"
      using all_ok by (auto simp add: dfs_def cols split_beta)
    have "set C0 = (\<Union>x\<in>set xs. set (fst x))"
      unfolding C0_def all_cols by auto
    also have "\<dots> = S" using assms(1) all_ok by (cases xs) auto
    finally have setC0: "set C0 = S" .
    have dC0: "distinct C0" by (simp add: C0_def)
    have reidx: "map (\<lambda>(i, cs). map (cell_at (columns (tab (fst x) (snd x))) cs) C0)
                   (rows (tab (fst x) (snd x)))
        = map (\<lambda>g. map g C0) (snd x)" if "x \<in> set xs" for x
    proof -
      from all_ok [OF that] have "set (fst x) = S" by simp
      then have "map (cell_at (fst x) (map g (fst x))) C0 = map g C0" for g :: "string \<Rightarrow> 'a cell"
        by (intro map_cong [OF refl]) (simp add: cell_at_map setC0)
      then show ?thesis
        by (simp add: tab_def map_snd_renumber_comp o_def)
    qed
    have "map (\<lambda>df. map (\<lambda>(i, cs). map (cell_at (columns df) cs) C0) (rows df)) dfs
        = map (\<lambda>x. map (\<lambda>g. map g C0) (snd x)) xs"
      unfolding dfs_def map_map
      by (rule map_cong [OF refl]) (simp add: split_beta reidx)
    then have "concat (map (\<lambda>df. map (\<lambda>(i, cs). map (cell_at (columns df) cs) C0) (rows df)) dfs)
        = map (\<lambda>g. map g C0) (concat (map snd xs))"
      by (simp add: map_concat o_def)
    then have "pd_concat dfs = Inr (tab C0 (concat (map snd xs)))"
      unfolding pd_concat_def if_not_P [OF ne] if_not_P [OF False] if_not_P [OF dist]
      by (simp add: tab_def Let_def C0_def)
    with setC0 dC0 show ?thesis unfolding dfs_def by blast
  qed
qed

lemma prepared_ok:
  assumes "price_frame f"
  shows "distinct (fst (prepared t f))"
    and "set (fst (prepared t f)) = set (''Date'' # price_labels @ [''symbol''])"
  using assms price_frame_labels [OF assms]
  by (auto simp add: prepared_def price_frame_def)

lemma rows_prepared:
  "map (\<lambda>g. [g ''symbol'', g ''Date'', g ''Open'', g ''High'', g ''Low'', g ''Close'',
              g ''Adj Close'', g ''Volume'', Timestamp now]) (snd (prepared t f))
   = price_rows_of t now (Inr f)"
  by (simp add: prepared_def price_rows_of_def source_row_def split_beta)

lemma rows_collected:
  "map (\<lambda>g. [g ''symbol'', g ''Date'', g ''Open'', g ''High'', g ''Low'', g ''Close'',
              g ''Adj Close'', g ''Volume'', Timestamp now])
     (concat (map snd (concat (map (\<lambda>t. prepared_of t (r t)) ts))))
   = concat (map (\<lambda>t. price_rows_of t now (r t)) ts)"
proof (induction ts)
  case Nil
  then show ?case by simp
next
  case (Cons t ts)
  show ?case
  proof (cases "r t")
    case (Inl e)
    with Cons show ?thesis by (simp add: prepared_of_def price_rows_of_def)
  next
    case (Inr f)
    with Cons rows_prepared [of now t f] show ?thesis by (simp add: prepared_of_def)
  qed
qed

text \<open>
  Claim C2. Let the aggregate download return, and let every symbol either fail (its lookup
  in the downloaded data raises \<^verbatim>\<open>KeyError\<close>) or succeed (the lookup yields a table with
  the index \<^verbatim>\<open>Date\<close> and the six price columns, in any order), with at least one success.
  Then \<^verbatim>\<open>extract_yahoo_prices\<close> does not raise: it returns the rows of the succeeding
  symbols, in input order, under the nine output columns, each stamped with the one clock
  reading, without the rows that lack a close or a volume; a failed symbol contributes no
  row. With a single ticker the downloaded table itself is the table of that ticker. So an
  exception leaves the extractor only when the download raised or no symbol succeeded.
\<close>

theorem prices_partial_failure:
  assumes "tickers \<noteq> []"
    and "yf_download (download_request tickers start_date end_date period) = Inr data"
    and "\<forall>t\<in>set tickers. fetch_failed (ticker_view data tickers t)
                          \<or> fetch_succeeded (ticker_view data tickers t)"
    and "\<exists>t\<in>set tickers. fetch_succeeded (ticker_view data tickers t)"
  shows "extract_yahoo_prices yf_download w tickers start_date end_date period
         = (Inr (expected_prices (clock w (ticks w))
                   (map (\<lambda>t. (t, ticker_view data tickers t)) tickers)),
            w\<lparr>ticks := Suc (ticks w)\<rparr>)"
proof (cases "length tickers = 1")
  case True
  then obtain t where t: "tickers = [t]" by (cases tickers) auto
  let ?f = "whole data"
  from assms(4) have pf: "price_frame ?f"
    by (simp add: t ticker_view_def fetch_succeeded_def)
  have prep: "reset_index (setitem ?f ''symbol'' (Text t))
      = Inr (tab (fst (prepared t ?f)) (snd (prepared t ?f)))"
    using prepare_price_frame [OF pf, of t] by (simp add: prepared_def)
  have "extract_yahoo_prices yf_download w tickers start_date end_date period
      = normalize_prices w (tab (fst (prepared t ?f)) (snd (prepared t ?f)))"
    unfolding extract_yahoo_prices_def assms(2) by (simp add: t prep)
  also have "\<dots> = (Inr (expected_prices (clock w (ticks w))
                   (map (\<lambda>t. (t, ticker_view data tickers t)) tickers)),
            w\<lparr>ticks := Suc (ticks w)\<rparr>)"
    unfolding normalize_tab [OF prepared_ok [OF pf]] rows_prepared
    by (simp add: expected_prices_def t ticker_view_def)
  finally show ?thesis .
next
  case False
  then have view: "ticker_view data tickers t = getitem_ticker data t" for t
    by (simp add: ticker_view_def)
  let ?xs = "concat (map (\<lambda>t. prepared_of t (getitem_ticker data t)) tickers)"
  have coll: "collect_tickers data tickers = Inr (map (\<lambda>(C, gs). tab C gs) ?xs)"
    using assms(3) unfolding view by (rule collect_tickers_ok)
  from assms(4) obtain t where tin: "t \<in> set tickers"
      and fs: "fetch_succeeded (getitem_ticker data t)"
    unfolding view by blast
  from fs obtain f where f: "getitem_ticker data t = Inr f"
    by (cases "getitem_ticker data t") (simp_all add: fetch_succeeded_def)
  from tin f have "prepared t f \<in> set ?xs" by (force simp add: prepared_of_def)
  then have ne: "?xs \<noteq> []" by (metis empty_iff list.set(1))
  have ok: "\<forall>(C, gs)\<in>set ?xs. distinct C \<and> set C = set (''Date'' # price_labels @ [''symbol''])"
  proof -
    have "distinct (fst x) \<and> set (fst x) = set (''Date'' # price_labels @ [''symbol''])"
      if "x \<in> set ?xs" for x
    proof -
      from that obtain t where tin: "t \<in> set tickers"
        and x: "x \<in> set (prepared_of t (getitem_ticker data t))" by auto
      have "\<exists>f. getitem_ticker data t = Inr f \<and> x = prepared t f"
      proof (cases "getitem_ticker data t")
        case (Inl e)
        with x show ?thesis by (simp add: prepared_of_def)
      next
        case (Inr f)
        with x show ?thesis by (simp add: prepared_of_def)
      qed
      then obtain f where f: "getitem_ticker data t = Inr f" and xf: "x = prepared t f"
        by blast
      from assms(3) tin f have "price_frame f"
        unfolding view by (auto simp add: fetch_failed_def fetch_succeeded_def)
      from prepared_ok [OF this, of t] xf show ?thesis by simp
    qed
    then show ?thesis by (auto simp add: split_beta)
  qed
  from pd_concat_tabs [OF ne ok] obtain C0 where C0: "distinct C0"
      "set C0 = set (''Date'' # price_labels @ [''symbol''])"
      and cc: "pd_concat (map (\<lambda>(C, gs). tab C gs) ?xs) = Inr (tab C0 (concat (map snd ?xs)))"
    by blast
  have ne': "map (\<lambda>(C, gs). tab C gs) ?xs \<noteq> []" using ne by simp
  have "extract_yahoo_prices yf_download w tickers start_date end_date period
      = normalize_prices w (tab C0 (concat (map snd ?xs)))"
    unfolding extract_yahoo_prices_def assms(2) using False ne'
    by (simp only: sum.case if_False coll cc)
  also have "\<dots> = (Inr (expected_prices (clock w (ticks w))
                   (map (\<lambda>t. (t, ticker_view data tickers t)) tickers)),
            w\<lparr>ticks := Suc (ticks w)\<rparr>)"
    unfolding normalize_tab [OF C0] rows_collected view
    by (simp add: expected_prices_def o_def)
  finally show ?thesis .
qed

text \<open>Two tickers, of which the download knows only the first.\<close>

theorem prices_partial_failure_witness:
  "extract_yahoo_prices sample_download ticking_world [''AAA'', ''BBB''] None None ''5d''
     = (Inr sample_prices_result, ticking_world\<lparr>ticks := 1\<rparr>)"
proof -
  let ?ts = "[''AAA'', ''BBB'']"
  have h1: "?ts \<noteq> []" by simp
  have h2: "sample_download (download_request ?ts None None ''5d'') = Inr sample_data"
    by (simp add: sample_download_def)
  have h3: "\<forall>t\<in>set ?ts. fetch_failed (ticker_view sample_data ?ts t)
                          \<or> fetch_succeeded (ticker_view sample_data ?ts t)"
    by code_simp
  have h4: "\<exists>t\<in>set ?ts. fetch_succeeded (ticker_view sample_data ?ts t)"
    by code_simp
  have e: "expected_prices (clock ticking_world (ticks ticking_world))
             (map (\<lambda>t. (t, ticker_view sample_data ?ts t)) ?ts) = sample_prices_result"
    by code_simp
  have r: "extract_yahoo_prices sample_download ticking_world ?ts None None ''5d''
      = (Inr (expected_prices (clock ticking_world (ticks ticking_world))
                (map (\<lambda>t. (t, ticker_view sample_data ?ts t)) ?ts)),
         ticking_world\<lparr>ticks := Suc (ticks ticking_world)\<rparr>)"
    by (rule prices_partial_failure [where yf_download = sample_download and tickers = "?ts"
          and start_date = None and end_date = None and period = "''5d''"
          and data = sample_data and w = ticking_world, OF h1 h2 h3 h4])
  show ?thesis
    unfolding r e by (simp add: ticking_world_def)
qed

text \<open>
  When every symbol of a call with several tickers fails, the loop collects nothing and the
  function returns the empty table instead of raising.
\<close>

lemma collect_tickers_all_failed:
  assumes "\<forall>t\<in>set ts. fetch_failed (getitem_ticker data t)"
  shows "collect_tickers data ts = Inr []"
  using assms
  by (induction ts) (auto simp add: fetch_failed_def split: sum.splits)

lemma prices_all_failed_returns_empty:
  assumes "length tickers \<noteq> 1"
    and "yf_download (download_request tickers start_date end_date period) = Inr data"
    and "\<forall>t\<in>set tickers. fetch_failed (getitem_ticker data t)"
  shows "extract_yahoo_prices yf_download w tickers start_date end_date period
         = (Inr empty_frame, w)"
  using assms(1) collect_tickers_all_failed [OF assms(3)]
  by (simp add: extract_yahoo_prices_def assms(2))

lemma extract_yahoo_prices_reply:
  "extract_yahoo_prices yf_download w tickers start_date end_date period =
     (case yf_download (download_request tickers start_date end_date period) of
        Inl x \<Rightarrow> (Inl x, w)
      | Inr data \<Rightarrow> prices_from_data w tickers data)"
  by (simp add: extract_yahoo_prices_def prices_from_data_def split: sum.splits)

lemma download_request_range:
  "s \<noteq> [] \<Longrightarrow> e \<noteq> [] \<Longrightarrow>
   download_request tickers (Some s) (Some e) period = By_range tickers s e"
  by (simp add: download_request_def)

text \<open>
  Claim C8. When both \<^verbatim>\<open>start_date\<close> and \<^verbatim>\<open>end_date\<close> are given (non-empty strings),
  \<^verbatim>\<open>extract_yahoo_prices\<close> asks the download for exactly that range of the tickers and
  returns what its body makes of the answer: the exception the range request raises, or the
  table built from the data it returns. The request built is the range request, the result
  does not depend on \<^verbatim>\<open>period\<close>, and it depends on the download only through the answer
  to the range request.
\<close>

theorem explicit_range_takes_precedence:
  assumes "s \<noteq> []" and "e \<noteq> []"
  shows "extract_yahoo_prices yf_download w tickers (Some s) (Some e) period
           = (case yf_download (By_range tickers s e) of
                Inl x \<Rightarrow> (Inl x, w)
              | Inr data \<Rightarrow> prices_from_data w tickers data)
         \<and> download_request tickers (Some s) (Some e) period = By_range tickers s e
         \<and> extract_yahoo_prices yf_download w tickers (Some s) (Some e) period
           = extract_yahoo_prices yf_download w tickers (Some s) (Some e) period'
         \<and> (\<forall>other_download.
               other_download (By_range tickers s e) = yf_download (By_range tickers s e)
               \<longrightarrow> extract_yahoo_prices other_download w tickers (Some s) (Some e) period'
                   = extract_yahoo_prices yf_download w tickers (Some s) (Some e) period)"
  by (simp add: extract_yahoo_prices_reply download_request_range [OF assms])

text \<open>
  A download that answers the range request only: with the dates given the extractor gets
  its data whatever the period, without them it asks for the period and the download raises.
\<close>

lemma sample_range_prices:
  "fst (prices_from_data ticking_world [''AAA'', ''BBB''] sample_data) = Inr sample_prices_result"
  by code_simp

theorem explicit_range_takes_precedence_witness:
  "fst (extract_yahoo_prices range_download ticking_world [''AAA'', ''BBB'']
          (Some ''2024-01-01'') (Some ''2024-01-31'') ''1y'') = Inr sample_prices_result
   \<and> extract_yahoo_prices range_download ticking_world [''AAA'', ''BBB'']
        (Some ''2024-01-01'') (Some ''2024-01-31'') ''1y''
     = extract_yahoo_prices range_download ticking_world [''AAA'', ''BBB'']
        (Some ''2024-01-01'') (Some ''2024-01-31'') ''5d''"
proof -
  have h1: "''2024-01-01'' \<noteq> []" and h2: "''2024-01-31'' \<noteq> []" by simp_all
  note t = explicit_range_takes_precedence [where yf_download = range_download
      and w = ticking_world and tickers = "[''AAA'', ''BBB'']" and period = "''1y''"
      and period' = "''5d''", OF h1 h2]
  have reply: "range_download (By_range [''AAA'', ''BBB''] ''2024-01-01'' ''2024-01-31'')
      = Inr sample_data"
    by (simp add: range_download_def)
  from t have "extract_yahoo_prices range_download ticking_world [''AAA'', ''BBB'']
          (Some ''2024-01-01'') (Some ''2024-01-31'') ''1y''
      = prices_from_data ticking_world [''AAA'', ''BBB''] sample_data"
    unfolding reply by simp
  then have a: "fst (extract_yahoo_prices range_download ticking_world [''AAA'', ''BBB'']
          (Some ''2024-01-01'') (Some ''2024-01-31'') ''1y'') = Inr sample_prices_result"
    by (simp only: sample_range_prices)
  from t a show ?thesis by blast
qed

lemma period_requested_without_dates:
  "fst (extract_yahoo_prices range_download ticking_world [''AAA'', ''BBB''] None None ''1y'')
     = Inl (Exn ValueError ''a period requested'')"
  by (simp add: extract_yahoo_prices_reply download_request_def range_download_def)

lemma dropna_ok:
  assumes "dropna labels d = Inr df"
  shows "(\<forall>(i, cs)\<in>set (rows df). \<forall>(l, c)\<in>set (zip (columns df) cs).
            l \<in> set labels \<longrightarrow> \<not> is_null c) \<and> set labels \<subseteq> set (columns df)"
  using assms by (auto simp add: dropna_def split: if_splits)

lemma normalize_prices_ok:
  assumes "fst (normalize_prices w d) = Inr df"
  shows "no_null_close_volume df \<and> {''close'', ''volume''} \<subseteq> set (columns df)"
proof (cases "getitem_columns (rename_columns column_mapping (lower_columns d)) final_columns")
  case (Inl e)
  with assms show ?thesis by (simp add: normalize_prices_def)
next
  case (Inr selected)
  with assms have "dropna [''close'', ''volume'']
      (setitem selected ''ingested_at'' (Timestamp (clock w (ticks w)))) = Inr df"
    by (simp add: normalize_prices_def datetime_now_def)
  from dropna_ok [OF this] show ?thesis
    by (simp add: no_null_close_volume_def)
qed

text \<open>
  Claim C7. Whenever \<^verbatim>\<open>extract_yahoo_prices\<close> returns a table, no row of it has a null
  cell in a \<^verbatim>\<open>close\<close> or \<^verbatim>\<open>volume\<close> column; the table is either the empty one of the
  early return or has both columns.
\<close>

theorem prices_no_null_close_volume:
  assumes "fst (extract_yahoo_prices yf_download w tickers start_date end_date period) = Inr df"
  shows "no_null_close_volume df
         \<and> (df = empty_frame \<or> {''close'', ''volume''} \<subseteq> set (columns df))"
proof -
  have e: "no_null_close_volume (empty_frame :: 'a frame)"
    by (simp add: no_null_close_volume_def empty_frame_def)
  show ?thesis
    using assms e
    by (auto simp add: extract_yahoo_prices_def split: sum.splits if_splits
        dest!: normalize_prices_ok)
qed

text \<open>A single ticker whose table has a row without a close.\<close>

lemma sample_single_extraction:
  "fst (extract_yahoo_prices sample_download ticking_world [''AAA''] None None ''5d'')
     = Inr sample_prices_result"
  by code_simp

theorem prices_no_null_close_volume_witness:
  "no_null_close_volume sample_prices_result
   \<and> (sample_prices_result = empty_frame
        \<or> {''close'', ''volume''} \<subseteq> set (columns sample_prices_result))"
  by (rule prices_no_null_close_volume [OF sample_single_extraction])

end
